theory Spec2Isabelle
  imports Complex_Main "HOL-Library.Log_Nat"
begin

section \<open>JavaScript numbers\<close>

text \<open>
  Every number of the program is an IEEE-754 binary64 value. A finite value is carried as
  the rational it denotes; the two zeros are identified (the program never divides by a
  computed value and never prints a zero's sign). Each arithmetic operator computes the
  exact rational result and rounds it to the nearest binary64 value, ties to the even
  significand, overflowing to an infinity.
\<close>

datatype number = NaN | NegInf | Fin rat | PosInf

definition rne :: "rat \<Rightarrow> int" where
  \<comment> \<open>nearest integer, a tie to the even one\<close>
  "rne x = (let f = \<lfloor>x\<rfloor>; d = x - of_int f
            in if d < 1/2 then f else if 1/2 < d then f + 1 else if even f then f else f + 1)"

definition ilog2 :: "rat \<Rightarrow> int" where
  \<comment> \<open>the binary exponent of a non-zero rational: \<open>2 powi k \<le> \<bar>q\<bar> < 2 powi (k + 1)\<close>\<close>
  "ilog2 q = (let (a, b) = quotient_of \<bar>q\<bar>;
                  k = int (floorlog 2 (nat a)) - int (floorlog 2 (nat b))
              in if 2 powi k \<le> \<bar>q\<bar> then k else k - 1)"

definition fexp :: "rat \<Rightarrow> int" where
  \<comment> \<open>the exponent of the last place: 53 significant bits, subnormals below \<open>2 powi (- 1022)\<close>\<close>
  "fexp q = max (ilog2 q - 52) (- 1074)"

definition rd64 :: "rat \<Rightarrow> rat" where
  "rd64 q = (if q = 0 then 0 else of_int (rne (q / 2 powi fexp q)) * 2 powi fexp q)"

definition F64 :: "rat \<Rightarrow> number" where
  \<comment> \<open>the Number value for a mathematical value\<close>
  "F64 q = (let r = rd64 q
            in if 2 ^ 1024 \<le> r then PosInf else if r \<le> - (2 ^ 1024) then NegInf else Fin r)"

subsection \<open>Operators\<close>

fun js_neg :: "number \<Rightarrow> number" where
  "js_neg NaN = NaN"
| "js_neg NegInf = PosInf"
| "js_neg PosInf = NegInf"
| "js_neg (Fin a) = Fin (- a)"

fun js_add :: "number \<Rightarrow> number \<Rightarrow> number" where
  "js_add NaN y = NaN"
| "js_add x NaN = NaN"
| "js_add PosInf NegInf = NaN"
| "js_add NegInf PosInf = NaN"
| "js_add PosInf y = PosInf"
| "js_add x PosInf = PosInf"
| "js_add NegInf y = NegInf"
| "js_add x NegInf = NegInf"
| "js_add (Fin a) (Fin b) = F64 (a + b)"

definition js_sub :: "number \<Rightarrow> number \<Rightarrow> number" where
  "js_sub x y = js_add x (js_neg y)"

definition inf_of_sign :: "bool \<Rightarrow> number" where
  "inf_of_sign positive = (if positive then PosInf else NegInf)"

fun js_mul :: "number \<Rightarrow> number \<Rightarrow> number" where
  "js_mul NaN y = NaN"
| "js_mul x NaN = NaN"
| "js_mul (Fin a) (Fin b) = F64 (a * b)"
| "js_mul (Fin a) PosInf = (if a = 0 then NaN else inf_of_sign (0 < a))"
| "js_mul (Fin a) NegInf = (if a = 0 then NaN else inf_of_sign (a < 0))"
| "js_mul PosInf (Fin b) = (if b = 0 then NaN else inf_of_sign (0 < b))"
| "js_mul NegInf (Fin b) = (if b = 0 then NaN else inf_of_sign (b < 0))"
| "js_mul PosInf PosInf = PosInf"
| "js_mul NegInf NegInf = PosInf"
| "js_mul PosInf NegInf = NegInf"
| "js_mul NegInf PosInf = NegInf"

fun js_div :: "number \<Rightarrow> number \<Rightarrow> number" where
  \<comment> \<open>a zero divisor is read as \<open>+0\<close>\<close>
  "js_div NaN y = NaN"
| "js_div x NaN = NaN"
| "js_div (Fin a) (Fin b) =
     (if b = 0 then (if a = 0 then NaN else inf_of_sign (0 < a)) else F64 (a / b))"
| "js_div (Fin a) PosInf = Fin 0"
| "js_div (Fin a) NegInf = Fin 0"
| "js_div PosInf (Fin b) = inf_of_sign (0 \<le> b)"
| "js_div NegInf (Fin b) = inf_of_sign (b < 0)"
| "js_div x y = NaN"

fun js_lt :: "number \<Rightarrow> number \<Rightarrow> bool" where
  \<comment> \<open>\<open>x < y\<close>: false as soon as an operand is NaN\<close>
  "js_lt NaN y = False"
| "js_lt x NaN = False"
| "js_lt PosInf y = False"
| "js_lt x PosInf = True"
| "js_lt x NegInf = False"
| "js_lt NegInf y = True"
| "js_lt (Fin a) (Fin b) = (a < b)"

definition js_gt :: "number \<Rightarrow> number \<Rightarrow> bool" where
  "js_gt x y = js_lt y x"

definition js_seq :: "number \<Rightarrow> number \<Rightarrow> bool" where
  \<comment> \<open>\<open>x === y\<close> on numbers\<close>
  "js_seq x y = (x \<noteq> NaN \<and> x = y)"

definition js_le :: "number \<Rightarrow> number \<Rightarrow> bool" where
  \<comment> \<open>\<open>x <= y\<close>\<close>
  "js_le x y = (js_lt x y \<or> js_seq x y)"

definition js_ge :: "number \<Rightarrow> number \<Rightarrow> bool" where
  "js_ge x y = js_le y x"

definition nonneg :: "number \<Rightarrow> bool" where
  \<comment> \<open>\<open>0 <= x\<close>: a finite value from 0 on, or \<open>+\<infinity>\<close>\<close>
  "nonneg x = js_le (Fin 0) x"

definition Math_max :: "number \<Rightarrow> number \<Rightarrow> number" where
  "Math_max x y = (if x = NaN \<or> y = NaN then NaN else if js_lt x y then y else x)"

definition Math_min :: "number \<Rightarrow> number \<Rightarrow> number" where
  "Math_min x y = (if x = NaN \<or> y = NaN then NaN else if js_lt y x then y else x)"

fun Math_round :: "number \<Rightarrow> number" where
  \<comment> \<open>the integer nearest to x, a tie towards \<open>+\<infinity>\<close>\<close>
  "Math_round (Fin a) = Fin (of_int \<lfloor>a + 1/2\<rfloor>)"
| "Math_round x = x"

section \<open>Strings as numbers\<close>

text \<open>
  Strings are lists of 8-bit characters, so only the white space of that range is known
  to the model. A literal longer than 20 significant digits is rounded correctly, as the
  browsers do.
\<close>

definition is_ws :: "char \<Rightarrow> bool" where
  "is_ws c = (of_char c \<in> {9, 10, 11, 12, 13, 32, 160 :: nat})"

definition is_digit :: "char \<Rightarrow> bool" where
  "is_digit c = (48 \<le> (of_char c :: nat) \<and> (of_char c :: nat) \<le> 57)"

definition digit_radix :: "nat \<Rightarrow> char \<Rightarrow> nat option" where
  \<comment> \<open>the value of a digit of the radix, if it is one\<close>
  "digit_radix R c =
     (let n = (of_char c :: nat);
          v = (if 48 \<le> n \<and> n \<le> 57 then n - 48
               else if 97 \<le> n \<and> n \<le> 122 then n - 87
               else if 65 \<le> n \<and> n \<le> 90 then n - 55
               else R)
      in if v < R then Some v else None)"

definition digits_val :: "nat \<Rightarrow> string \<Rightarrow> nat" where
  \<comment> \<open>the value of a run of digits of the radix\<close>
  "digits_val R ds =
     foldl (\<lambda>acc c. acc * R + (case digit_radix R c of Some v \<Rightarrow> v | None \<Rightarrow> 0)) 0 ds"

definition is_radix_digit :: "nat \<Rightarrow> char \<Rightarrow> bool" where
  "is_radix_digit R c = (digit_radix R c \<noteq> None)"

definition TrimStart :: "string \<Rightarrow> string" where
  "TrimStart s = dropWhile is_ws s"

definition TrimString :: "string \<Rightarrow> string" where
  "TrimString s = rev (dropWhile is_ws (rev (dropWhile is_ws s)))"

definition split_sign :: "string \<Rightarrow> bool \<times> string" where
  \<comment> \<open>an optional sign: (negative, the rest)\<close>
  "split_sign s = (case s of
       c # t \<Rightarrow> if c = CHR ''-'' then (True, t) else if c = CHR ''+'' then (False, t) else (False, s)
     | [] \<Rightarrow> (False, s))"

definition parse_exponent :: "string \<Rightarrow> int \<times> string" where
  \<comment> \<open>ExponentPart, when one stands at the head: (the exponent, the rest)\<close>
  "parse_exponent s = (case s of
       c # t \<Rightarrow>
         if c = CHR ''e'' \<or> c = CHR ''E'' then
           (let (neg, u) = split_sign t; ds = takeWhile is_digit u
            in if ds = [] then (0, s)
               else ((if neg then - int (digits_val 10 ds) else int (digits_val 10 ds)),
                     dropWhile is_digit u))
         else (0, s)
     | [] \<Rightarrow> (0, s))"

definition parse_unsigned :: "string \<Rightarrow> (number \<times> string) option" where
  \<comment> \<open>the longest prefix that is a StrUnsignedDecimalLiteral: (its value, the rest)\<close>
  "parse_unsigned s =
     (if take 8 s = ''Infinity'' then Some (PosInf, drop 8 s)
      else
        let ip = takeWhile is_digit s; r1 = dropWhile is_digit s;
            (fp, r2) = (case r1 of
                 c # t \<Rightarrow> if c = CHR ''.'' then (takeWhile is_digit t, dropWhile is_digit t)
                          else ([], r1)
               | [] \<Rightarrow> ([], r1))
        in if ip = [] \<and> fp = [] then None
           else
             let (ex, r3) = parse_exponent r2
             in Some (F64 (of_nat (digits_val 10 (ip @ fp)) * 10 powi (ex - int (length fp))), r3))"

definition parse_decimal :: "string \<Rightarrow> (number \<times> string) option" where
  \<comment> \<open>the longest prefix that is a StrDecimalLiteral\<close>
  "parse_decimal s =
     (let (neg, t) = split_sign s
      in case parse_unsigned t of
           None \<Rightarrow> None
         | Some (v, r) \<Rightarrow> Some (if neg then js_neg v else v, r))"

definition parseFloat :: "string \<Rightarrow> number" where
  "parseFloat s = (case parse_decimal (TrimStart s) of None \<Rightarrow> NaN | Some (v, r) \<Rightarrow> v)"

definition parseInt :: "string \<Rightarrow> number" where
  \<comment> \<open>\<open>parseInt(s)\<close>, no radix given\<close>
  "parseInt s =
     (let (neg, t) = split_sign (TrimStart s);
          hex = (take 2 t = ''0x'' \<or> take 2 t = ''0X'');
          R = (if hex then 16 else 10);
          ds = takeWhile (is_radix_digit R) (if hex then drop 2 t else t)
      in if ds = [] then NaN
         else F64 (if neg then - of_nat (digits_val R ds) else of_nat (digits_val R ds)))"

definition radix_of_prefix :: "string \<Rightarrow> nat option" where
  "radix_of_prefix p =
     (if p = ''0x'' \<or> p = ''0X'' then Some 16
      else if p = ''0o'' \<or> p = ''0O'' then Some 8
      else if p = ''0b'' \<or> p = ''0B'' then Some 2
      else None)"

definition StringToNumber :: "string \<Rightarrow> number" where
  \<comment> \<open>\<open>ToNumber\<close> of a string: the whole trimmed text is a StrNumericLiteral, or NaN\<close>
  "StringToNumber s =
     (let t = TrimString s
      in if t = [] then Fin 0
         else case radix_of_prefix (take 2 t) of
           Some R \<Rightarrow>
             if drop 2 t \<noteq> [] \<and> list_all (is_radix_digit R) (drop 2 t)
             then F64 (of_nat (digits_val R (drop 2 t))) else NaN
         | None \<Rightarrow>
             (case parse_decimal t of
                Some (v, r) \<Rightarrow> if r = [] then v else NaN
              | None \<Rightarrow> NaN))"

section \<open>The form's data\<close>

text \<open>
  The submit handler builds the object from \<open>FormData.get\<close>: each field of the form is
  a string or \<open>null\<close> (here \<open>None\<close>), and \<open>age\<close> is the number \<open>calculateAge\<close>
  returned, or \<open>null\<close> when no date was given.
\<close>

record patient =
  dob :: "string option"
  age :: "number option"
  anaemia :: "string option"
  haemoglobin :: "string option"
  parasiteCount :: "string option"

definition falsy :: "string option \<Rightarrow> bool" where
  \<comment> \<open>\<open>!x\<close> for a string or null\<close>
  "falsy x = (case x of None \<Rightarrow> True | Some s \<Rightarrow> s = [])"

definition ToNumber_num :: "number option \<Rightarrow> number" where
  \<comment> \<open>\<open>ToNumber\<close> of a number or null: null is \<open>+0\<close>\<close>
  "ToNumber_num x = (case x of None \<Rightarrow> Fin 0 | Some n \<Rightarrow> n)"

definition ToNumber_str :: "string option \<Rightarrow> number" where
  "ToNumber_str x = (case x of None \<Rightarrow> Fin 0 | Some s \<Rightarrow> StringToNumber s)"

definition ToString_str :: "string option \<Rightarrow> string" where
  "ToString_str x = (case x of None \<Rightarrow> ''null'' | Some s \<Rightarrow> s)"

section \<open>Dates\<close>

text \<open>
  A Date object is known to the program through \<open>getFullYear\<close>, \<open>getMonth\<close> (from 0) and
  \<open>getDate\<close> only, so a valid one is the record of what these three return;
  \<open>None\<close> is the Invalid Date, whose getters return NaN. How the host reads a string as
  a date and which day it is (the two \<open>new Date\<close> calls) is the host's own.
\<close>

record date_fields =
  fullYear :: int
  month :: int
  dayOfMonth :: int

record host =
  today :: date_fields
  newDate :: "string \<Rightarrow> date_fields option"

definition getFullYear :: "date_fields option \<Rightarrow> number" where
  "getFullYear d = (case d of None \<Rightarrow> NaN | Some r \<Rightarrow> F64 (of_int (fullYear r)))"

definition getMonth :: "date_fields option \<Rightarrow> number" where
  "getMonth d = (case d of None \<Rightarrow> NaN | Some r \<Rightarrow> F64 (of_int (month r)))"

definition getDate :: "date_fields option \<Rightarrow> number" where
  "getDate d = (case d of None \<Rightarrow> NaN | Some r \<Rightarrow> F64 (of_int (dayOfMonth r)))"

definition leap_year :: "int \<Rightarrow> bool" where
  "leap_year y = (y mod 4 = 0 \<and> (y mod 100 \<noteq> 0 \<or> y mod 400 = 0))"

definition days_in_month :: "int \<Rightarrow> int \<Rightarrow> int" where
  "days_in_month y m =
     (if m = 1 then (if leap_year y then 29 else 28)
      else if m = 3 \<or> m = 5 \<or> m = 8 \<or> m = 10 then 30 else 31)"

definition valid_date :: "date_fields \<Rightarrow> bool" where
  \<comment> \<open>a day of the calendar, in the years a Date object can hold\<close>
  "valid_date d = (- 271821 \<le> fullYear d \<and> fullYear d \<le> 275760 \<and>
                   0 \<le> month d \<and> month d \<le> 11 \<and>
                   1 \<le> dayOfMonth d \<and> dayOfMonth d \<le> days_in_month (fullYear d) (month d))"

definition next_day :: "date_fields \<Rightarrow> date_fields" where
  "next_day d =
     (if dayOfMonth d < days_in_month (fullYear d) (month d)
      then d\<lparr>dayOfMonth := dayOfMonth d + 1\<rparr>
      else if month d < 11 then d\<lparr>month := month d + 1, dayOfMonth := 1\<rparr>
      else d\<lparr>fullYear := fullYear d + 1, month := 0, dayOfMonth := 1\<rparr>)"

definition date_before :: "date_fields \<Rightarrow> date_fields \<Rightarrow> bool" where
  "date_before a b =
     (fullYear a < fullYear b \<or>
      (fullYear a = fullYear b \<and>
       (month a < month b \<or> (month a = month b \<and> dayOfMonth a < dayOfMonth b))))"

definition prev_day :: "date_fields \<Rightarrow> date_fields" where
  "prev_day d =
     (if 1 < dayOfMonth d then d\<lparr>dayOfMonth := dayOfMonth d - 1\<rparr>
      else if 0 < month d
      then d\<lparr>month := month d - 1, dayOfMonth := days_in_month (fullYear d) (month d - 1)\<rparr>
      else d\<lparr>fullYear := fullYear d - 1, month := 11, dayOfMonth := 31\<rparr>)"

definition parse_date_only :: "string \<Rightarrow> date_fields option" where
  \<comment> \<open>the date-only form \<open>YYYY-MM-DD\<close>, the value of a date input\<close>
  "parse_date_only s =
     (case s of
        [y1, y2, y3, y4, s1, m1, m2, s2, d1, d2] \<Rightarrow>
          (let y = int (digits_val 10 [y1, y2, y3, y4]);
               m = int (digits_val 10 [m1, m2]);
               d = int (digits_val 10 [d1, d2])
           in if list_all is_digit [y1, y2, y3, y4, m1, m2, d1, d2] \<and>
                 s1 = CHR ''-'' \<and> s2 = CHR ''-'' \<and> 1 \<le> m \<and> m \<le> 12 \<and>
                 1 \<le> d \<and> d \<le> days_in_month y (m - 1)
              then Some \<lparr>fullYear = y, month = m - 1, dayOfMonth = d\<rparr>
              else None)
      | _ \<Rightarrow> None)"

text \<open>
  The language reads a date-only string as midnight UTC of that day, and the three getters
  give the fields of that instant in local time. In a time zone behind UTC the instant
  falls on the evening before, so the Date object shows the previous day; in a zone at or
  ahead of UTC it shows the day of the string. \<open>zoned_host\<close> is the host with a given
  local date and a given offset from UTC in minutes, less than a day either way. It reads
  the date-only form, the form the date of birth has on the form; any other text is the
  Invalid Date here.
\<close>

definition zoned_host :: "date_fields \<Rightarrow> int \<Rightarrow> host" where
  "zoned_host localToday offsetMinutes =
     \<lparr>today = localToday,
      newDate = (\<lambda>s. case parse_date_only s of
                       None \<Rightarrow> None
                     | Some d \<Rightarrow> Some (if offsetMinutes < 0 then prev_day d else d))\<rparr>"

section \<open>The program\<close>

text \<open>
  The functions of the page's script: \<open>calculateAge\<close>, \<open>calculateRisk\<close>,
  \<open>getRiskInterpretation\<close> and \<open>validateForm\<close>. The repository holds the script
  twice; the three functions both copies define are the same text in both.
\<close>

definition calculateAge :: "host \<Rightarrow> string \<Rightarrow> number" where
  "calculateAge h birthDate =
     (let today = Some (today h);
          birth = newDate h birthDate;
          age = js_sub (getFullYear today) (getFullYear birth);
          monthDiff = js_sub (getMonth today) (getMonth birth)
      in if js_lt monthDiff (Fin 0) \<or>
            (js_seq monthDiff (Fin 0) \<and> js_lt (getDate today) (getDate birth))
         then js_sub age (Fin 1)
         else age)"

definition risk_total :: "patient \<Rightarrow> number" where
  \<comment> \<open>the accumulator of \<open>calculateRisk\<close> before it is clamped\<close>
  "risk_total data =
     (let risk = Fin 0;
          risk = (if js_lt (ToNumber_num (age data)) (Fin 5) then js_add risk (Fin 20)
                  else if js_gt (ToNumber_num (age data)) (Fin 65) then js_add risk (Fin 15)
                  else js_add risk (js_mul (ToNumber_num (age data)) (F64 (3/10))));
          risk = (if anaemia data = Some ''yes'' then js_add risk (Fin 25) else risk);
          hbFactor = Math_max (Fin 0)
                       (js_mul (js_sub (Fin 150) (ToNumber_str (haemoglobin data))) (F64 (2/10)));
          risk = js_add risk hbFactor;
          risk = (if parasiteCount data \<noteq> Some ''not-available''
                  then js_add risk (js_mul (parseInt (ToString_str (parasiteCount data))) (Fin 5))
                  else risk)
      in risk)"

definition calculateRisk :: "patient \<Rightarrow> number" where
  "calculateRisk data =
     (let risk = risk_total data;
          risk = Math_min (Fin 100) (Math_max (Fin 0) risk)
      in js_div (Math_round (js_mul risk (Fin 10))) (Fin 10))"

text \<open>
  The object \<open>getRiskInterpretation\<close> returns has the properties \<open>text\<close> and
  \<open>class\<close>; both words are reserved here, so the fields are \<open>riskText\<close> and
  \<open>riskClass\<close>.
\<close>

record risk_interpretation =
  riskText :: string
  riskClass :: string

definition getRiskInterpretation :: "number \<Rightarrow> risk_interpretation" where
  "getRiskInterpretation riskValue =
     (if js_lt riskValue (Fin 20) then
        \<lparr>riskText = ''Low risk - Standard monitoring recommended'', riskClass = ''low-risk''\<rparr>
      else if js_lt riskValue (Fin 50) then
        \<lparr>riskText = ''Moderate risk - Enhanced monitoring advised'', riskClass = ''medium-risk''\<rparr>
      else
        \<lparr>riskText = ''High risk - Immediate clinical attention required'',
         riskClass = ''high-risk''\<rparr>)"

datatype tier = Low | Moderate | High

definition tier_of :: "risk_interpretation \<Rightarrow> tier option" where
  \<comment> \<open>the tier a result's style class stands for\<close>
  "tier_of i =
     (if riskClass i = ''low-risk'' then Some Low
      else if riskClass i = ''medium-risk'' then Some Moderate
      else if riskClass i = ''high-risk'' then Some High
      else None)"

text \<open>
  \<open>validateForm\<close> holds a reference to the caller's object and a list it pushes to: the
  state it runs on is the pair of both.
\<close>

record vstate =
  formData :: patient
  errors :: "string list"

definition push :: "string \<Rightarrow> vstate \<Rightarrow> vstate" where
  "push msg st = st\<lparr>errors := errors st @ [msg]\<rparr>"

definition check_dob :: "host \<Rightarrow> vstate \<Rightarrow> vstate" where
  "check_dob h st =
     (case dob (formData st) of
        None \<Rightarrow> push ''Date of birth is required'' st
      | Some birthDate \<Rightarrow>
          if birthDate = [] then push ''Date of birth is required'' st
          else
            let age = calculateAge h birthDate;
                st = (if js_lt age (Fin 0)
                      then push ''Date of birth cannot be in the future'' st else st);
                st = (if js_gt age (Fin 120)
                      then push ''Please check the date of birth - age seems unrealistic'' st
                      else st)
            in st)"

definition check_anaemia :: "vstate \<Rightarrow> vstate" where
  "check_anaemia st =
     (if falsy (anaemia (formData st)) then push ''Please select anaemia status'' st else st)"

definition check_haemoglobin :: "vstate \<Rightarrow> vstate" where
  "check_haemoglobin st =
     (if falsy (haemoglobin (formData st)) then push ''Haemoglobin level is required'' st
      else
        let hb = parseFloat (ToString_str (haemoglobin (formData st)))
        in if js_lt hb (Fin 20) \<or> js_gt hb (Fin 180)
           then push ''Haemoglobin must be between 20-180 g/L'' st
           else st)"

definition check_parasiteCount :: "vstate \<Rightarrow> vstate" where
  "check_parasiteCount st =
     (if falsy (parasiteCount (formData st)) then push ''Please select parasite count'' st
      else st)"

definition validateForm_run :: "host \<Rightarrow> patient \<Rightarrow> vstate" where
  "validateForm_run h fd =
     check_parasiteCount (check_haemoglobin (check_anaemia (check_dob h
       \<lparr>formData = fd, errors = []\<rparr>)))"

definition validateForm :: "host \<Rightarrow> patient \<Rightarrow> string list" where
  "validateForm h fd = errors (validateForm_run h fd)"

section \<open>The score on typed values\<close>

text \<open>
  \<open>calculateRisk\<close> once more, on an integer age, a yes or no, a haemoglobin number and
  a count instead of the form's texts: the same binary64 operations in the same order, the
  conversions left out. These definitions serve the proofs; the specification's formula is
  the next section's.
\<close>

definition clamp_0_100 :: "number \<Rightarrow> number" where
  \<comment> \<open>\<open>Math.min(100, Math.max(0, risk))\<close>\<close>
  "clamp_0_100 x = Math_min (Fin 100) (Math_max (Fin 0) x)"

definition round_one_decimal :: "number \<Rightarrow> number" where
  \<comment> \<open>\<open>Math.round(risk * 10) / 10\<close>\<close>
  "round_one_decimal x = js_div (Math_round (js_mul x (Fin 10))) (Fin 10)"

definition age_contribution :: "int \<Rightarrow> number" where
  \<comment> \<open>the age factor\<close>
  "age_contribution a =
     (if a < 5 then Fin 20 else if 65 < a then Fin 15
      else js_mul (Fin (of_int a)) (F64 (3/10)))"

definition anaemia_contribution :: "bool \<Rightarrow> number" where
  \<comment> \<open>the anaemia factor, an addition of 0 standing for no addition\<close>
  "anaemia_contribution yes = (if yes then Fin 25 else Fin 0)"

definition haemoglobin_contribution :: "rat \<Rightarrow> number" where
  \<comment> \<open>\<open>hbFactor\<close>\<close>
  "haemoglobin_contribution hb =
     Math_max (Fin 0) (js_mul (js_sub (Fin 150) (Fin hb)) (F64 (2/10)))"

definition parasite_contribution :: "nat option \<Rightarrow> number" where
  \<comment> \<open>the parasite count factor; \<open>None\<close> is the sentinel\<close>
  "parasite_contribution p = (case p of Some n \<Rightarrow> js_mul (F64 (of_nat n)) (Fin 5) | None \<Rightarrow> Fin 0)"

definition typed_total :: "int \<Rightarrow> bool \<Rightarrow> rat \<Rightarrow> nat option \<Rightarrow> number" where
  \<comment> \<open>the accumulator before the clamp\<close>
  "typed_total a yes hb p =
     js_add (js_add (js_add (js_add (Fin 0) (age_contribution a)) (anaemia_contribution yes))
               (haemoglobin_contribution hb))
       (parasite_contribution p)"

definition typed_score :: "int \<Rightarrow> bool \<Rightarrow> rat \<Rightarrow> nat option \<Rightarrow> number" where
  "typed_score a yes hb p = round_one_decimal (clamp_0_100 (typed_total a yes hb p))"

section \<open>The specification's words\<close>

text \<open>
  The definitions of this section follow the specification, not the code; the theorems
  below compare the two. The specification's score is a formula on numbers, so it is
  written here in exact rational arithmetic.
\<close>

definition age_spec :: "date_fields \<Rightarrow> date_fields \<Rightarrow> int" where
  \<comment> \<open>whole years elapsed, one less when the birthday has not yet occurred this year\<close>
  "age_spec ref birth =
     fullYear ref - fullYear birth -
     (if month ref < month birth \<or> (month ref = month birth \<and> dayOfMonth ref < dayOfMonth birth)
      then 1 else 0)"

definition dob_errors :: "host \<Rightarrow> patient \<Rightarrow> string list" where
  \<comment> \<open>missing; present but age below 0; present but age above 120\<close>
  "dob_errors h fd =
     (if falsy (dob fd) then [''Date of birth is required'']
      else
        (if js_lt (calculateAge h (ToString_str (dob fd))) (Fin 0)
         then [''Date of birth cannot be in the future''] else []) @
        (if js_gt (calculateAge h (ToString_str (dob fd))) (Fin 120)
         then [''Please check the date of birth - age seems unrealistic''] else []))"

definition anaemia_errors :: "patient \<Rightarrow> string list" where
  "anaemia_errors fd = (if falsy (anaemia fd) then [''Please select anaemia status''] else [])"

definition haemoglobin_errors :: "patient \<Rightarrow> string list" where
  \<comment> \<open>missing; present but below 20 or above 180\<close>
  "haemoglobin_errors fd =
     (if falsy (haemoglobin fd) then [''Haemoglobin level is required'']
      else if js_lt (parseFloat (ToString_str (haemoglobin fd))) (Fin 20) \<or>
              js_gt (parseFloat (ToString_str (haemoglobin fd))) (Fin 180)
      then [''Haemoglobin must be between 20-180 g/L'']
      else [])"

definition parasite_errors :: "patient \<Rightarrow> string list" where
  "parasite_errors fd =
     (if falsy (parasiteCount fd) then [''Please select parasite count''] else [])"

definition exact_age :: "int \<Rightarrow> rat" where
  \<comment> \<open>step 2: 20 below 5, 15 above 65, else \<open>age * 0.3\<close>\<close>
  "exact_age a = (if a < 5 then 20 else if 65 < a then 15 else of_int a * (3/10))"

definition exact_anaemia :: "bool \<Rightarrow> rat" where
  \<comment> \<open>step 3: 25 if the status is yes, else 0\<close>
  "exact_anaemia yes = (if yes then 25 else 0)"

definition exact_haemoglobin :: "rat \<Rightarrow> rat" where
  \<comment> \<open>step 4: \<open>max(0, (150 - haemoglobin) * 0.2)\<close>\<close>
  "exact_haemoglobin hb = max 0 ((150 - hb) * (2/10))"

definition exact_parasite :: "nat option \<Rightarrow> rat" where
  \<comment> \<open>step 5: \<open>parasiteCount * 5\<close> for a count, 0 for the sentinel (\<open>None\<close>)\<close>
  "exact_parasite p = (case p of Some n \<Rightarrow> of_nat n * 5 | None \<Rightarrow> 0)"

definition exact_total :: "int \<Rightarrow> bool \<Rightarrow> rat \<Rightarrow> nat option \<Rightarrow> rat" where
  \<comment> \<open>steps 1 to 5, in exact arithmetic\<close>
  "exact_total a yes hb p =
     0 + exact_age a + exact_anaemia yes + exact_haemoglobin hb + exact_parasite p"

definition exact_clamped :: "int \<Rightarrow> bool \<Rightarrow> rat \<Rightarrow> nat option \<Rightarrow> rat" where
  \<comment> \<open>step 6: the total clamped to \<open>[0, 100]\<close>\<close>
  "exact_clamped a yes hb p = min 100 (max 0 (exact_total a yes hb p))"

definition exact_score :: "int \<Rightarrow> bool \<Rightarrow> rat \<Rightarrow> nat option \<Rightarrow> rat" where
  \<comment> \<open>step 7: rounded to one decimal place, a tie upwards\<close>
  "exact_score a yes hb p = of_int \<lfloor>exact_clamped a yes hb p * 10 + 1/2\<rfloor> / 10"

definition exact_score_even :: "int \<Rightarrow> bool \<Rightarrow> rat \<Rightarrow> nat option \<Rightarrow> rat" where
  \<comment> \<open>step 7 with the other tie rule: a tie to the even digit\<close>
  "exact_score_even a yes hb p = of_int (rne (exact_clamped a yes hb p * 10)) / 10"

definition count_of :: "string option \<Rightarrow> nat option \<Rightarrow> bool" where
  \<comment> \<open>the parasite count field reads as the sentinel (\<open>None\<close>) or as a decimal count\<close>
  "count_of field p =
     (case p of
        None \<Rightarrow> field = Some ''not-available''
      | Some n \<Rightarrow>
          (case field of
             None \<Rightarrow> False
           | Some ds \<Rightarrow> ds \<noteq> [] \<and> list_all is_digit ds \<and> n = digits_val 10 ds))"

section \<open>Worked inputs\<close>

definition example_host :: host where
  \<comment> \<open>a host on 15 June 2024 that reads two date strings\<close>
  "example_host =
     \<lparr>today = \<lparr>fullYear = 2024, month = 5, dayOfMonth = 15\<rparr>,
      newDate = (\<lambda>s. if s = ''1990-03-20'' then Some \<lparr>fullYear = 1990, month = 2, dayOfMonth = 20\<rparr>
                     else if s = ''2024-06-16'' then Some \<lparr>fullYear = 2024, month = 5, dayOfMonth = 16\<rparr>
                     else None)\<rparr>"

definition behind_host :: host where
  \<comment> \<open>15 June 2024 in a zone five hours behind UTC\<close>
  "behind_host = zoned_host \<lparr>fullYear = 2024, month = 5, dayOfMonth = 15\<rparr> (- 300)"

definition utc_host :: host where
  \<comment> \<open>15 June 2024 in a zone at UTC\<close>
  "utc_host = zoned_host \<lparr>fullYear = 2024, month = 5, dayOfMonth = 15\<rparr> 0"

definition patient_ex1 :: patient where
  "patient_ex1 = \<lparr>dob = Some ''1954-01-01'', age = Some (Fin 70), anaemia = Some ''no'',
                   haemoglobin = Some ''150'', parasiteCount = Some ''not-available''\<rparr>"

definition patient_ex2 :: patient where
  "patient_ex2 = \<lparr>dob = Some ''2021-01-01'', age = Some (Fin 3), anaemia = Some ''yes'',
                   haemoglobin = Some ''100'', parasiteCount = Some ''4''\<rparr>"

definition patient_ex3 :: patient where
  "patient_ex3 = \<lparr>dob = Some ''1984-01-01'', age = Some (Fin 40), anaemia = Some ''no'',
                   haemoglobin = Some ''160'', parasiteCount = Some ''0''\<rparr>"

definition patient_age5 :: patient where
  "patient_age5 = \<lparr>dob = Some ''2019-01-01'', age = Some (Fin 5), anaemia = Some ''no'',
                    haemoglobin = Some ''150'', parasiteCount = Some ''not-available''\<rparr>"

definition patient_age65 :: patient where
  "patient_age65 = \<lparr>dob = Some ''1959-01-01'', age = Some (Fin 65), anaemia = Some ''no'',
                     haemoglobin = Some ''150'', parasiteCount = Some ''not-available''\<rparr>"

definition patient_boundary :: patient where
  \<comment> \<open>the exact sum of the formula is 49.95\<close>
  "patient_boundary = \<lparr>dob = Some ''2006-01-01'', age = Some (Fin 18), anaemia = Some ''yes'',
                        haemoglobin = Some ''127.25'', parasiteCount = Some ''3''\<rparr>"

definition patient_tie :: patient where
  \<comment> \<open>a total of 15.25, ten times which is 152.5\<close>
  "patient_tie = \<lparr>dob = Some ''1954-01-01'', age = Some (Fin 70), anaemia = Some ''no'',
                   haemoglobin = Some ''148.75'', parasiteCount = Some ''not-available''\<rparr>"



definition patient_text_hb :: patient where
  "patient_text_hb = \<lparr>dob = Some ''1990-03-20'', age = Some (Fin 34), anaemia = Some ''no'',
                       haemoglobin = Some ''abc'', parasiteCount = Some ''2''\<rparr>"

definition patient_trailing_text :: patient where
  "patient_trailing_text = \<lparr>dob = Some ''1990-03-20'', age = Some (Fin 34), anaemia = Some ''no'',
                             haemoglobin = Some ''100abc'', parasiteCount = Some ''2''\<rparr>"

definition patient_inexact :: patient where
  \<comment> \<open>the exact sum of the formula is 21.35\<close>
  "patient_inexact = \<lparr>dob = Some ''2016-01-01'', age = Some (Fin 8), anaemia = Some ''no'',
                       haemoglobin = Some ''55.25'', parasiteCount = Some ''not-available''\<rparr>"

definition patient_tomorrow :: patient where
  "patient_tomorrow = \<lparr>dob = Some ''2024-06-16'', age = Some (Fin (- 1)), anaemia = Some ''no'',
                        haemoglobin = Some ''120'', parasiteCount = Some ''not-available''\<rparr>"

section \<open>Rounding\<close>

lemma rne_of_int: "rne (of_int n) = n"
  by (simp add: rne_def)

lemma rne_mono: "x \<le> y \<Longrightarrow> rne x \<le> rne y"
proof -
  assume xy: "x \<le> y"
  have fl: "\<lfloor>x\<rfloor> \<le> \<lfloor>y\<rfloor>" using xy by (rule floor_mono)
  have lo: "\<lfloor>y\<rfloor> \<le> rne y" by (simp add: rne_def Let_def)
  have hi: "rne x \<le> \<lfloor>x\<rfloor> + 1" by (simp add: rne_def Let_def)
  show ?thesis
  proof (cases "\<lfloor>x\<rfloor> = \<lfloor>y\<rfloor>")
    case True
    then show ?thesis using xy by (auto simp: rne_def Let_def)
  next
    case False
    then have "\<lfloor>x\<rfloor> + 1 \<le> \<lfloor>y\<rfloor>" using fl by simp
    then show ?thesis using lo hi by linarith
  qed
qed

lemma rne_near: "\<bar>x - of_int m\<bar> < 1/2 \<Longrightarrow> rne x = m"
proof -
  assume h: "\<bar>x - of_int m\<bar> < 1/2"
  show ?thesis
  proof (cases "of_int m \<le> x")
    case True
    then have "\<lfloor>x\<rfloor> = m" using h by (intro floor_unique) auto
    then show ?thesis using h True by (simp add: rne_def Let_def)
  next
    case False
    then have f: "\<lfloor>x\<rfloor> = m - 1" using h by (intro floor_unique) auto
    have "1/2 < x - of_int (m - 1)" using h False by auto
    then show ?thesis using f by (simp add: rne_def Let_def)
  qed
qed

lemma p2pos: "(0::rat) < 2 powi e"
  by (simp add: zero_less_power_int)

lemma p2mono: "i \<le> j \<Longrightarrow> (2::rat) powi i \<le> 2 powi j"
  by (intro power_int_increasing) auto

lemma p2add: "(2::rat) powi i * 2 powi j = 2 powi (i + j)"
  by (rule power_int_add[symmetric]) simp

lemma p2nat: "0 \<le> i \<Longrightarrow> (2::rat) powi i = of_int (2 ^ nat i)"
  by (simp add: power_int_def)

lemma ilog2_bounds:
  assumes "q \<noteq> 0"
  shows "2 powi ilog2 q \<le> \<bar>q\<bar> \<and> \<bar>q\<bar> < 2 powi (ilog2 q + 1)"
proof -
  obtain a b where ab: "quotient_of \<bar>q\<bar> = (a, b)" by (cases "quotient_of \<bar>q\<bar>")
  have bpos: "0 < b" using ab by (rule quotient_of_denom_pos)
  have qeq: "\<bar>q\<bar> = of_int a / of_int b" using ab by (rule quotient_of_div)
  have apos: "0 < a"
  proof -
    have "0 < \<bar>q\<bar>" using assms by simp
    then have "0 < (of_int a :: rat) / of_int b" using qeq by simp
    then show ?thesis using bpos by (simp add: zero_less_divide_iff)
  qed
  define fa where "fa = floorlog 2 (nat a)"
  define fb where "fb = floorlog 2 (nat b)"
  define k where "k = int fa - int fb"
  have ba: "2 ^ (fa - 1) \<le> nat a \<and> nat a < 2 ^ fa"
    unfolding fa_def using floorlog_bounds[of "nat a" 2] apos by simp
  have bb: "2 ^ (fb - 1) \<le> nat b \<and> nat b < 2 ^ fb"
    unfolding fb_def using floorlog_bounds[of "nat b" 2] bpos by simp
  have fa1: "1 \<le> fa" unfolding fa_def using apos by (simp add: floorlog_def)
  have fb1: "1 \<le> fb" unfolding fb_def using bpos by (simp add: floorlog_def)
  have a_lo: "(2::rat) ^ (fa - 1) \<le> of_int a"
  proof -
    have "(of_nat (2 ^ (fa - 1)) :: rat) \<le> of_nat (nat a)" using ba by (simp only: of_nat_le_iff)
    then show ?thesis using apos by simp
  qed
  have a_hi: "(of_int a :: rat) < 2 ^ fa"
  proof -
    have "(of_nat (nat a) :: rat) < of_nat (2 ^ fa)" using ba by (simp only: of_nat_less_iff)
    then show ?thesis using apos by simp
  qed
  have b_lo: "(2::rat) ^ (fb - 1) \<le> of_int b"
  proof -
    have "(of_nat (2 ^ (fb - 1)) :: rat) \<le> of_nat (nat b)" using bb by (simp only: of_nat_le_iff)
    then show ?thesis using bpos by simp
  qed
  have b_hi: "(of_int b :: rat) < 2 ^ fb"
  proof -
    have "(of_nat (nat b) :: rat) < of_nat (2 ^ fb)" using bb by (simp only: of_nat_less_iff)
    then show ?thesis using bpos by simp
  qed
  have bq: "(0::rat) < of_int b" using bpos by simp
  have up: "\<bar>q\<bar> < 2 powi (k + 1)"
  proof -
    have "of_int a < (2::rat) ^ fa" by (rule a_hi)
    also have "\<dots> = 2 powi (k + 1) * 2 ^ (fb - 1)"
    proof -
      have "(2::rat) powi (k + 1) * 2 ^ (fb - 1) = 2 powi (k + 1) * 2 powi int (fb - 1)"
        by (simp add: power_int_def)
      also have "\<dots> = 2 powi (k + 1 + int (fb - 1))" by (rule p2add)
      also have "k + 1 + int (fb - 1) = int fa" using fb1 by (simp add: k_def)
      finally show ?thesis by (simp add: power_int_def)
    qed
    also have "\<dots> \<le> 2 powi (k + 1) * of_int b"
      using b_lo by (simp add: mult_left_mono)
    finally have "of_int a < 2 powi (k + 1) * (of_int b :: rat)" .
    then show ?thesis using bq by (simp add: qeq pos_divide_less_eq)
  qed
  have low: "2 powi (k - 1) < \<bar>q\<bar>"
  proof -
    have "2 powi (k - 1) * (of_int b :: rat) < 2 powi (k - 1) * 2 ^ fb"
      using b_hi by (simp add: mult_strict_left_mono)
    also have "\<dots> = 2 ^ (fa - 1)"
    proof -
      have "(2::rat) powi (k - 1) * 2 ^ fb = 2 powi (k - 1) * 2 powi int fb"
        by (simp add: power_int_def)
      also have "\<dots> = 2 powi (k - 1 + int fb)" by (rule p2add)
      also have "k - 1 + int fb = int (fa - 1)" using fa1 by (simp add: k_def)
      finally show ?thesis by (simp add: power_int_def)
    qed
    also have "\<dots> \<le> of_int a" by (rule a_lo)
    finally have "2 powi (k - 1) * (of_int b :: rat) < of_int a" .
    then show ?thesis using bq by (simp add: qeq pos_less_divide_eq)
  qed
  have il: "ilog2 q = (if 2 powi k \<le> \<bar>q\<bar> then k else k - 1)"
    by (simp add: ilog2_def ab Let_def k_def fa_def fb_def)
  show ?thesis
  proof (cases "2 powi k \<le> \<bar>q\<bar>")
    case True
    then show ?thesis using up il by simp
  next
    case False
    then show ?thesis using low il by simp
  qed
qed

lemma p2_le_abs_nonzero:
  assumes "2 powi k \<le> \<bar>q :: rat\<bar>"
  shows "q \<noteq> 0"
proof
  assume "q = 0"
  with assms have "(2::rat) powi k \<le> 0" by simp
  with p2pos[of k] show False by linarith
qed

lemma ilog2_unique:
  assumes "2 powi k \<le> \<bar>q\<bar>" and "\<bar>q\<bar> < 2 powi (k + 1)"
  shows "ilog2 q = k"
proof -
  have q0: "q \<noteq> 0" using assms(1) by (rule p2_le_abs_nonzero)
  note b = ilog2_bounds[OF q0]
  have "\<not> ilog2 q < k"
  proof
    assume "ilog2 q < k"
    then have "(2::rat) powi (ilog2 q + 1) \<le> 2 powi k" by (intro p2mono) simp
    then show False using b assms by linarith
  qed
  moreover have "\<not> k < ilog2 q"
  proof
    assume "k < ilog2 q"
    then have "(2::rat) powi (k + 1) \<le> 2 powi ilog2 q" by (intro p2mono) simp
    then show False using b assms by linarith
  qed
  ultimately show ?thesis by simp
qed

lemma ilog2_le:
  assumes "q \<noteq> 0" and "\<bar>q\<bar> < 2 powi (k + 1)"
  shows "ilog2 q \<le> k"
proof (rule ccontr)
  assume "\<not> ilog2 q \<le> k"
  then have "(2::rat) powi (k + 1) \<le> 2 powi ilog2 q" by (intro p2mono) simp
  then show False using ilog2_bounds[OF assms(1)] assms(2) by linarith
qed

lemma ilog2_mono:
  assumes "0 < a" and "a \<le> b"
  shows "ilog2 a \<le> ilog2 b"
proof -
  have "\<bar>a\<bar> < 2 powi (ilog2 b + 1)" using ilog2_bounds[of b] assms by simp
  then show ?thesis using assms by (intro ilog2_le) auto
qed

lemma rd64_nonneg: "0 \<le> q \<Longrightarrow> 0 \<le> rd64 q"
proof -
  assume q: "0 \<le> q"
  have "0 \<le> q / 2 powi fexp q" using q p2pos[of "fexp q"] by simp
  then have "rne 0 \<le> rne (q / 2 powi fexp q)" by (rule rne_mono)
  then have "0 \<le> rne (q / 2 powi fexp q)" using rne_of_int[of 0] by simp
  then show ?thesis using p2pos[of "fexp q"] by (simp add: rd64_def)
qed

lemma rd64_mono_pos:
  assumes a: "0 < a" and ab: "a \<le> b"
  shows "rd64 a \<le> rd64 b"
proof -
  have b: "0 < b" using a ab by simp
  have kk: "ilog2 a \<le> ilog2 b" using a ab by (rule ilog2_mono)
  then have ee: "fexp a \<le> fexp b" by (simp add: fexp_def)
  have ra: "rd64 a = of_int (rne (a / 2 powi fexp a)) * 2 powi fexp a" using a by (simp add: rd64_def)
  have rb: "rd64 b = of_int (rne (b / 2 powi fexp b)) * 2 powi fexp b" using b by (simp add: rd64_def)
  show ?thesis
  proof (cases "fexp a = fexp b")
    case True
    have "a / 2 powi fexp b \<le> b / 2 powi fexp b" using ab p2pos[of "fexp b"] by (simp add: divide_right_mono)
    then have "rne (a / 2 powi fexp b) \<le> rne (b / 2 powi fexp b)" by (rule rne_mono)
    then have "(of_int (rne (a / 2 powi fexp b)) :: rat) * 2 powi fexp b
                 \<le> of_int (rne (b / 2 powi fexp b)) * 2 powi fexp b"
      using p2pos[of "fexp b"] by (simp add: mult_right_mono)
    then show ?thesis using ra rb True by simp
  next
    case False
    then have lt: "fexp a < fexp b" using ee by simp
    define kb where "kb = ilog2 b"
    have eb: "fexp b = kb - 52" using lt by (auto simp: fexp_def kb_def max_def split: if_splits)
    have ka: "ilog2 a + 1 \<le> kb" using lt eb by (auto simp: fexp_def max_def split: if_splits)
    have ge: "fexp a \<le> kb" using lt eb by simp
    define n where "n = nat (kb - fexp a)"
    have npow: "(2::rat) powi (kb - fexp a) = of_int (2 ^ n)"
      using ge by (simp add: n_def p2nat)
    have "a < 2 powi (ilog2 a + 1)" using ilog2_bounds[of a] a by simp
    also have "\<dots> \<le> 2 powi kb" using ka by (rule p2mono)
    finally have a_lt: "a \<le> 2 powi kb" by simp
    have "a / 2 powi fexp a \<le> 2 powi kb / 2 powi fexp a"
      using a_lt p2pos[of "fexp a"] by (simp add: divide_right_mono)
    also have "2 powi kb / 2 powi fexp a = (2::rat) powi (kb - fexp a)"
      by (simp add: power_int_diff)
    finally have "a / 2 powi fexp a \<le> of_int (2 ^ n)" using npow by simp
    then have "rne (a / 2 powi fexp a) \<le> rne (of_int (2 ^ n))" by (rule rne_mono)
    then have "rne (a / 2 powi fexp a) \<le> 2 ^ n" by (simp only: rne_of_int)
    then have "(of_int (rne (a / 2 powi fexp a)) :: rat) \<le> of_int (2 ^ n)" by (simp only: of_int_le_iff)
    then have "(of_int (rne (a / 2 powi fexp a)) :: rat) * 2 powi fexp a \<le> of_int (2 ^ n) * 2 powi fexp a"
      using p2pos[of "fexp a"] by (simp add: mult_right_mono)
    also have "(of_int (2 ^ n) :: rat) * 2 powi fexp a = (2::rat) powi kb"
    proof -
      have "of_int (2 ^ n) * 2 powi fexp a = (2::rat) powi (kb - fexp a) * 2 powi fexp a"
        using npow by simp
      also have "\<dots> = 2 powi (kb - fexp a + fexp a)" by (rule p2add)
      finally show ?thesis by simp
    qed
    finally have left: "rd64 a \<le> 2 powi kb" using ra by simp
    have b_ge: "2 powi kb \<le> b" using ilog2_bounds[of b] b by (simp add: kb_def)
    have "2 powi kb / 2 powi fexp b \<le> b / 2 powi fexp b"
      using b_ge p2pos[of "fexp b"] by (simp add: divide_right_mono)
    moreover have "2 powi kb / 2 powi fexp b = (of_int (2 ^ 52) :: rat)"
    proof -
      have "2 powi kb / 2 powi fexp b = (2::rat) powi (kb - fexp b)" by (simp add: power_int_diff)
      also have "kb - fexp b = 52" using eb by simp
      finally show ?thesis by simp
    qed
    ultimately have "of_int (2 ^ 52) \<le> b / 2 powi fexp b" by simp
    then have "rne (of_int (2 ^ 52)) \<le> rne (b / 2 powi fexp b)" by (rule rne_mono)
    then have "2 ^ 52 \<le> rne (b / 2 powi fexp b)" by (simp only: rne_of_int)
    then have "(of_int (2 ^ 52) :: rat) \<le> of_int (rne (b / 2 powi fexp b))" by (simp only: of_int_le_iff)
    then have s1: "(of_int (2 ^ 52) :: rat) * 2 powi fexp b \<le> of_int (rne (b / 2 powi fexp b)) * 2 powi fexp b"
      using p2pos[of "fexp b"] by (simp add: mult_right_mono)
    have s2: "(of_int (2 ^ 52) :: rat) * 2 powi fexp b = (2::rat) powi kb"
    proof -
      have "of_int (2 ^ 52) * 2 powi fexp b = (2::rat) powi 52 * 2 powi fexp b" by simp
      also have "\<dots> = 2 powi (52 + fexp b)" by (rule p2add)
      also have "52 + fexp b = kb" using eb by simp
      finally show ?thesis .
    qed
    have right: "2 powi kb \<le> rd64 b" using s1 unfolding s2 rb .
    show ?thesis using left right by simp
  qed
qed

lemma rd64_mono_nonneg:
  assumes "0 \<le> a" and "a \<le> b"
  shows "rd64 a \<le> rd64 b"
proof (cases "a = 0")
  case True
  then show ?thesis using assms rd64_nonneg[of b] by (simp add: rd64_def)
next
  case False
  then show ?thesis using assms rd64_mono_pos[of a b] by simp
qed

lemma rd64_exact:
  assumes "q / 2 powi fexp q = of_int m"
  shows "rd64 q = q"
proof (cases "q = 0")
  case True
  then show ?thesis by (simp add: rd64_def)
next
  case False
  have "rd64 q = of_int (rne (of_int m)) * 2 powi fexp q" using False assms by (simp add: rd64_def)
  also have "\<dots> = of_int m * 2 powi fexp q" by (simp only: rne_of_int)
  also have "\<dots> = q / 2 powi fexp q * 2 powi fexp q" using assms by simp
  also have "\<dots> = q" using p2pos[of "fexp q"] by simp
  finally show ?thesis .
qed

lemma rd64_dyadic:
  assumes m: "\<bar>m\<bar> \<le> 2 ^ 53" and e: "- 1074 \<le> e"
  shows "rd64 (of_int m * 2 powi e) = of_int m * 2 powi e"
proof (cases "m = 0")
  case True
  then show ?thesis by (simp add: rd64_def)
next
  case False
  define q :: rat where "q = of_int m * 2 powi e"
  have q0: "q \<noteq> 0" using False p2pos[of e] by (simp add: q_def)
  have absq: "\<bar>q\<bar> = of_int \<bar>m\<bar> * 2 powi e" using p2pos[of e] by (simp add: q_def abs_mult)
  have p53: "(of_int (2 ^ 53) :: rat) * 2 powi e = 2 powi (53 + e)"
  proof -
    have "(of_int (2 ^ 53) :: rat) * 2 powi e = 2 powi 53 * 2 powi e" by simp
    also have "\<dots> = 2 powi (53 + e)" by (rule p2add)
    finally show ?thesis .
  qed
  show ?thesis
  proof (cases "\<bar>m\<bar> = 2 ^ 53")
    case True
    have aq: "\<bar>q\<bar> = 2 powi (53 + e)" using absq True p53 by simp
    have "(2::rat) powi (53 + e) < 2 powi (53 + e + 1)"
      by (intro power_int_strict_increasing) auto
    then have "ilog2 q = 53 + e" using aq by (intro ilog2_unique) auto
    then have fe: "fexp q = e + 1" using e by (simp add: fexp_def)
    have "(2::rat) powi (e + 1) = 2 powi e * 2" using p2add[of e 1] by simp
    then have "q / 2 powi (e + 1) = of_int m / 2" using p2pos[of e] by (simp add: q_def)
    moreover have "(of_int m :: rat) / 2 = of_int (m div 2)"
    proof -
      have "m = 2 ^ 53 \<or> m = - (2 ^ 53)" using True by linarith
      then show ?thesis by auto
    qed
    ultimately have "q / 2 powi fexp q = of_int (m div 2)" using fe by simp
    then show ?thesis unfolding q_def[symmetric] by (rule rd64_exact)
  next
    case False
    then have "\<bar>m\<bar> < 2 ^ 53" using m by simp
    then have "(of_int \<bar>m\<bar> :: rat) < of_int (2 ^ 53)" by (simp only: of_int_less_iff)
    then have lt: "(of_int \<bar>m\<bar> :: rat) * 2 powi e < of_int (2 ^ 53) * 2 powi e"
      using p2pos[of e] by (simp add: mult_strict_right_mono)
    have eq: "(2::rat) powi (53 + e) = 2 powi (52 + e + 1)"
      by (rule arg_cong[where f = "\<lambda>i. 2 powi i"]) simp
    have "\<bar>q\<bar> < 2 powi (52 + e + 1)" using lt unfolding absq p53 eq .
    then have "ilog2 q \<le> 52 + e" using q0 by (intro ilog2_le)
    then have fe: "fexp q \<le> e" using e by (simp add: fexp_def)
    define j where "j = nat (e - fexp q)"
    have "(2::rat) powi e / 2 powi fexp q = 2 powi (e - fexp q)" by (simp add: power_int_diff)
    also have "\<dots> = of_int (2 ^ j)" using fe by (simp add: j_def p2nat)
    finally have d: "(2::rat) powi e / 2 powi fexp q = of_int (2 ^ j)" .
    have "q / 2 powi fexp q = of_int m * (2 powi e / 2 powi fexp q)" by (simp add: q_def)
    also have "\<dots> = of_int m * of_int (2 ^ j)" by (simp only: d)
    also have "\<dots> = of_int (m * 2 ^ j)" by simp
    finally have "q / 2 powi fexp q = of_int (m * 2 ^ j)" .
    then show ?thesis unfolding q_def[symmetric] by (rule rd64_exact)
  qed
qed

lemma rd64_form:
  assumes "q \<noteq> 0"
  shows "\<bar>rne (q / 2 powi fexp q)\<bar> \<le> 2 ^ 53"
proof -
  define x where "x = q / 2 powi fexp q"
  have "\<bar>q\<bar> < 2 powi (ilog2 q + 1)" using ilog2_bounds[OF assms] by simp
  also have "\<dots> \<le> 2 powi (fexp q + 53)" by (intro p2mono) (simp add: fexp_def)
  also have "\<dots> = 2 powi fexp q * 2 powi 53" by (rule p2add[symmetric])
  finally have "\<bar>q\<bar> < 2 powi fexp q * 2 ^ 53" by simp
  then have "\<bar>q\<bar> / 2 powi fexp q < 2 ^ 53" using p2pos[of "fexp q"]
    by (simp add: pos_divide_less_eq mult.commute)
  then have ax: "\<bar>x\<bar> < 2 ^ 53" using p2pos[of "fexp q"] by (simp add: x_def)
  have "x \<le> of_int (2 ^ 53)" using ax by simp
  then have "rne x \<le> rne (of_int (2 ^ 53))" by (rule rne_mono)
  then have up: "rne x \<le> 2 ^ 53" by (simp only: rne_of_int)
  have "of_int (- (2 ^ 53)) \<le> x" using ax by simp
  then have "rne (of_int (- (2 ^ 53))) \<le> rne x" by (rule rne_mono)
  then have lo: "- (2 ^ 53) \<le> rne x" by (simp only: rne_of_int)
  show ?thesis using up lo unfolding x_def by simp
qed

lemma rd64_idem: "rd64 (rd64 q) = rd64 q"
proof (cases "q = 0")
  case True
  then show ?thesis by (simp add: rd64_def)
next
  case False
  have "rd64 q = of_int (rne (q / 2 powi fexp q)) * 2 powi fexp q" using False by (simp add: rd64_def)
  moreover have "rd64 (of_int (rne (q / 2 powi fexp q)) * 2 powi fexp q)
                   = of_int (rne (q / 2 powi fexp q)) * 2 powi fexp q"
    using rd64_form[OF False] by (intro rd64_dyadic) (simp_all add: fexp_def)
  ultimately show ?thesis by simp
qed

lemma rd64_zero: "rd64 0 = 0"
  by (simp add: rd64_def)

lemma F64_zero: "F64 0 = Fin 0"
  by (simp add: F64_def rd64_zero)

lemma F64_cases:
  "F64 q = PosInf \<or> F64 q = NegInf \<or> (F64 q = Fin (rd64 q) \<and> \<bar>rd64 q\<bar> < 2 ^ 1024)"
  by (auto simp: F64_def Let_def)

lemma F64_not_NaN: "F64 q \<noteq> NaN"
  by (simp add: F64_def Let_def)

lemma F64_Fin_D: "F64 q = Fin r \<Longrightarrow> r = rd64 q \<and> \<bar>r\<bar> < 2 ^ 1024"
  by (auto simp: F64_def Let_def split: if_splits)

lemma F64_idem: "F64 q = Fin r \<Longrightarrow> F64 r = Fin r"
proof -
  assume "F64 q = Fin r"
  then have r: "r = rd64 q" and b: "\<bar>r\<bar> < 2 ^ 1024" using F64_Fin_D by auto
  have "rd64 r = r" using r rd64_idem by simp
  then show ?thesis using b by (auto simp: F64_def Let_def)
qed

lemma F64_nonneg_cases:
  "0 \<le> q \<Longrightarrow> F64 q = PosInf \<or> (F64 q = Fin (rd64 q) \<and> 0 \<le> rd64 q)"
  using rd64_nonneg[of q] by (auto simp: F64_def Let_def)

lemma F64_exact:
  assumes "rd64 q = q" and "\<bar>q\<bar> < 2 ^ 1024"
  shows "F64 q = Fin q"
  using assms by (auto simp: F64_def Let_def)

lemma F64_int:
  assumes "\<bar>n\<bar> \<le> 2 ^ 53"
  shows "F64 (of_int n) = Fin (of_int n)"
proof -
  have "rd64 (of_int n * 2 powi 0) = of_int n * 2 powi 0" using assms by (intro rd64_dyadic) simp_all
  then have r: "rd64 (of_int n) = of_int n" by simp
  have "(of_int \<bar>n\<bar> :: rat) \<le> of_int (2 ^ 53)" using assms by (simp only: of_int_le_iff)
  then have "\<bar>of_int n :: rat\<bar> \<le> 2 ^ 53" by simp
  moreover have "(2::rat) ^ 53 < 2 ^ 1024" by simp
  ultimately have "\<bar>of_int n :: rat\<bar> < 2 ^ 1024" by (rule le_less_trans)
  then show ?thesis using r by (rule F64_exact[rotated])
qed

lemma F64_eqI_rne:
  assumes lo: "2 powi k \<le> \<bar>q\<bar>" and hi: "\<bar>q\<bar> < 2 powi (k + 1)"
    and k: "- 1022 \<le> k" "k \<le> 1022"
    and rn: "rne (q / 2 powi (k - 52)) = m"
  shows "F64 q = Fin (of_int m * 2 powi (k - 52))"
proof -
  have q0: "q \<noteq> 0" using lo by (rule p2_le_abs_nonzero)
  have il: "ilog2 q = k" using lo hi by (rule ilog2_unique)
  then have fe: "fexp q = k - 52" using k by (simp add: fexp_def)
  have r: "rd64 q = of_int m * 2 powi (k - 52)" using q0 fe rn by (simp add: rd64_def)
  have "\<bar>m\<bar> \<le> 2 ^ 53" using rd64_form[OF q0] fe rn by simp
  then have "(of_int \<bar>m\<bar> :: rat) \<le> of_int (2 ^ 53)" by (simp only: of_int_le_iff)
  then have "(of_int \<bar>m\<bar> :: rat) * 2 powi (k - 52) \<le> of_int (2 ^ 53) * 2 powi (k - 52)"
    using p2pos[of "k - 52"] by (simp add: mult_right_mono)
  also have "(of_int (2 ^ 53) :: rat) * 2 powi (k - 52) = 2 powi (k + 1)"
  proof -
    have "(of_int (2 ^ 53) :: rat) * 2 powi (k - 52) = 2 powi 53 * 2 powi (k - 52)" by simp
    also have "\<dots> = 2 powi (53 + (k - 52))" by (rule p2add)
    also have "53 + (k - 52) = k + 1" by simp
    finally show ?thesis .
  qed
  also have "(2::rat) powi (k + 1) \<le> 2 powi 1023" using k by (intro p2mono) simp
  also have "(2::rat) powi 1023 < 2 ^ 1024" by simp
  finally have "\<bar>rd64 q\<bar> < 2 ^ 1024" using p2pos[of "k - 52"] by (simp add: r abs_mult)
  then show ?thesis using r by (auto simp: F64_def Let_def)
qed

lemma F64_eqI:
  assumes "2 powi k \<le> \<bar>q\<bar>" and "\<bar>q\<bar> < 2 powi (k + 1)"
    and "- 1022 \<le> k" and "k \<le> 1022"
    and "\<bar>q / 2 powi (k - 52) - of_int m\<bar> < 1/2"
  shows "F64 q = Fin (of_int m * 2 powi (k - 52))"
  using assms(1-4) rne_near[OF assms(5)] by (rule F64_eqI_rne)

lemma rne_tie: "rne (of_int f + 1/2) = (if even f then f else f + 1)"
proof -
  have "\<lfloor>(of_int f :: rat) + 1/2\<rfloor> = f" by (rule floor_unique) simp_all
  then show ?thesis by (simp add: rne_def)
qed

section \<open>Order and the operators\<close>

lemma js_le_Fin: "js_le (Fin a) (Fin b) = (a \<le> b)"
  by (auto simp: js_le_def js_seq_def)

lemma js_le_PosInf: "js_le x PosInf = (x \<noteq> NaN)"
  by (cases x) (simp_all add: js_le_def js_seq_def)

lemma js_le_not_NaN: "js_le x y \<Longrightarrow> x \<noteq> NaN \<and> y \<noteq> NaN"
  by (cases x; cases y) (simp_all add: js_le_def js_seq_def)

lemma js_le_refl: "x \<noteq> NaN \<Longrightarrow> js_le x x"
  by (simp add: js_le_def js_seq_def)

lemma nonneg_iff: "nonneg x = (x = PosInf \<or> (\<exists>q. x = Fin q \<and> 0 \<le> q))"
  by (cases x) (auto simp: nonneg_def js_le_def js_seq_def)

lemma nonneg_Fin: "nonneg (Fin q) = (0 \<le> q)"
  by (simp add: nonneg_iff)

lemma nonneg_PosInf: "nonneg PosInf"
  by (simp add: nonneg_iff)

lemma nonneg_not_NaN: "nonneg x \<Longrightarrow> x \<noteq> NaN"
  by (auto simp: nonneg_iff)

lemma nonneg_le_cases:
  assumes "nonneg x" and "nonneg y" and "js_le x y"
  obtains (inf) "y = PosInf" | (fin) a b where "x = Fin a" and "y = Fin b" and "0 \<le> a" and "a \<le> b"
  using assms by (cases x; cases y) (auto simp: nonneg_iff js_le_def js_seq_def)

lemma F64_nonneg: "0 \<le> q \<Longrightarrow> nonneg (F64 q)"
  using F64_nonneg_cases[of q] by (auto simp: nonneg_iff)

lemma F64_mono:
  assumes "0 \<le> a" and "a \<le> b"
  shows "js_le (F64 a) (F64 b)"
proof -
  have r: "rd64 a \<le> rd64 b" using assms by (rule rd64_mono_nonneg)
  have a0: "0 \<le> rd64 a" using assms(1) by (rule rd64_nonneg)
  show ?thesis using r a0 by (auto simp: F64_def Let_def js_le_def js_seq_def)
qed

lemma js_add_nonneg:
  assumes "nonneg x" and "nonneg y"
  shows "nonneg (js_add x y)"
proof (cases x)
  case (Fin a)
  note x = Fin
  show ?thesis
  proof (cases y)
    case (Fin b)
    then have "0 \<le> a + b" using assms x by (simp add: nonneg_Fin)
    then show ?thesis using x Fin by (simp add: F64_nonneg)
  qed (use assms x in \<open>auto simp: nonneg_iff\<close>)
next
  case PosInf
  then show ?thesis using assms by (cases y) (auto simp: nonneg_iff)
qed (use assms in \<open>auto simp: nonneg_iff\<close>)

lemma js_add_mono:
  assumes "nonneg x" "nonneg x'" "js_le x x'" "nonneg y" "nonneg y'" "js_le y y'"
  shows "js_le (js_add x y) (js_add x' y')"
proof -
  have nn: "nonneg (js_add x y)" using assms by (intro js_add_nonneg)
  show ?thesis
  using assms(1-3)
  proof (cases rule: nonneg_le_cases)
    case inf
    then have "js_add x' y' = PosInf" using assms(5) by (cases y') (auto simp: nonneg_iff)
    then show ?thesis using nn by (simp add: js_le_PosInf nonneg_not_NaN)
  next
    case (fin a b)
    note f1 = fin
    show ?thesis
    using assms(4-6)
    proof (cases rule: nonneg_le_cases)
      case inf
      then have "js_add x' y' = PosInf" using f1 by simp
      then show ?thesis using nn by (simp add: js_le_PosInf nonneg_not_NaN)
    next
      case (fin c d)
      then show ?thesis using f1 by (simp add: F64_mono)
    qed
  qed
qed

lemma js_mul_const_nonneg:
  assumes "nonneg x" and "0 < c"
  shows "nonneg (js_mul x (Fin c))"
proof (cases x)
  case (Fin a)
  then have "0 \<le> a * c" using assms by (simp add: nonneg_Fin)
  then show ?thesis using Fin by (simp add: F64_nonneg)
qed (use assms in \<open>auto simp: nonneg_iff inf_of_sign_def\<close>)

lemma js_mul_const_mono:
  assumes "nonneg x" "nonneg x'" "js_le x x'" "0 < c"
  shows "js_le (js_mul x (Fin c)) (js_mul x' (Fin c))"
  using assms(1-3)
proof (cases rule: nonneg_le_cases)
  case inf
  then have "js_mul x' (Fin c) = PosInf" using assms(4) by (simp add: inf_of_sign_def)
  then show ?thesis using js_mul_const_nonneg[OF assms(1,4)] by (simp add: js_le_PosInf nonneg_not_NaN)
next
  case (fin a b)
  then show ?thesis using assms(4) by (simp add: F64_mono mult_right_mono)
qed

lemma Math_max_0_nonneg: "x \<noteq> NaN \<Longrightarrow> nonneg (Math_max (Fin 0) x)"
  by (cases x) (auto simp: Math_max_def nonneg_iff)

lemma Math_max_0_id: "nonneg x \<Longrightarrow> Math_max (Fin 0) x = x"
  by (cases x) (auto simp: Math_max_def nonneg_iff)

lemma clamp_range:
  assumes "nonneg x"
  shows "\<exists>r. clamp_0_100 x = Fin r \<and> 0 \<le> r \<and> r \<le> 100"
  using assms by (cases x) (auto simp: clamp_0_100_def Math_max_def Math_min_def nonneg_iff)

lemma clamp_Fin: "0 \<le> a \<Longrightarrow> clamp_0_100 (Fin a) = Fin (min 100 a)"
  by (auto simp: clamp_0_100_def Math_max_def Math_min_def)

lemma clamp_PosInf: "clamp_0_100 PosInf = Fin 100"
  by (simp add: clamp_0_100_def Math_max_def Math_min_def)

lemma clamp_mono:
  assumes "nonneg x" "nonneg x'" "js_le x x'"
  shows "js_le (clamp_0_100 x) (clamp_0_100 x')"
  using assms
proof (cases rule: nonneg_le_cases)
  case inf
  obtain r where "clamp_0_100 x = Fin r" "0 \<le> r" "r \<le> 100"
    using clamp_range[OF assms(1)] by auto
  then show ?thesis using inf by (simp add: clamp_PosInf js_le_Fin)
next
  case (fin a b)
  then show ?thesis by (simp add: clamp_Fin js_le_Fin)
qed

lemma F64_1000: "F64 1000 = Fin 1000"
  using F64_int[of 1000] by simp

lemma F64_100: "F64 100 = Fin 100"
  using F64_int[of 100] by simp

lemma times10_range:
  assumes "0 \<le> r" and "r \<le> 100"
  shows "\<exists>t. F64 (r * 10) = Fin t \<and> 0 \<le> t \<and> t \<le> 1000"
proof -
  have "js_le (F64 (r * 10)) (F64 1000)" using assms by (intro F64_mono) auto
  moreover have "nonneg (F64 (r * 10))" using assms by (intro F64_nonneg) auto
  ultimately show ?thesis by (auto simp: F64_1000 nonneg_iff js_le_def js_seq_def)
qed

lemma round_range:
  assumes "0 \<le> r" and "r \<le> 100"
  shows "\<exists>s. round_one_decimal (Fin r) = Fin s \<and> 0 \<le> s \<and> s \<le> 100"
proof -
  obtain t where t: "F64 (r * 10) = Fin t" "0 \<le> t" "t \<le> 1000"
    using times10_range[OF assms] by auto
  define n where "n = \<lfloor>t + 1/2\<rfloor>"
  have n0: "0 \<le> n" using t by (simp add: n_def)
  have n1: "n \<le> 1000" using t by (simp add: n_def floor_le_iff)
  have q0: "(0::rat) \<le> of_int n / 10" using n0 by simp
  have q1: "(of_int n :: rat) / 10 \<le> 100" using n1 by simp
  have "js_le (F64 (of_int n / 10)) (F64 100)" using q0 q1 by (rule F64_mono)
  moreover have "nonneg (F64 (of_int n / 10))" using q0 by (rule F64_nonneg)
  ultimately have "\<exists>s. F64 (of_int n / 10) = Fin s \<and> 0 \<le> s \<and> s \<le> 100"
    by (auto simp: F64_100 nonneg_iff js_le_def js_seq_def)
  then show ?thesis by (simp add: round_one_decimal_def t n_def)
qed

lemma round_mono:
  assumes "0 \<le> r" and "r \<le> r'" and "r' \<le> 100"
  shows "js_le (round_one_decimal (Fin r)) (round_one_decimal (Fin r'))"
proof -
  have r100: "r \<le> 100" and r'0: "0 \<le> r'" using assms by auto
  obtain t where t: "F64 (r * 10) = Fin t" "0 \<le> t" "t \<le> 1000"
    using times10_range[OF assms(1) r100] by auto
  obtain t' where t': "F64 (r' * 10) = Fin t'" "0 \<le> t'" "t' \<le> 1000"
    using times10_range[OF r'0 assms(3)] by auto
  have "js_le (F64 (r * 10)) (F64 (r' * 10))" using assms by (intro F64_mono) auto
  then have tt: "t \<le> t'" using t t' by (simp add: js_le_Fin)
  define n where "n = \<lfloor>t + 1/2\<rfloor>"
  define n' where "n' = \<lfloor>t' + 1/2\<rfloor>"
  have nn: "n \<le> n'" using tt unfolding n_def n'_def by (intro floor_mono) simp
  have n0: "0 \<le> n" using t by (simp add: n_def)
  have "js_le (F64 (of_int n / 10)) (F64 (of_int n' / 10))"
    using n0 nn by (intro F64_mono) auto
  then show ?thesis by (simp add: round_one_decimal_def t t' n_def n'_def)
qed

lemma calculateRisk_steps:
  "calculateRisk data = round_one_decimal (clamp_0_100 (risk_total data))"
  by (simp add: calculateRisk_def round_one_decimal_def clamp_0_100_def Let_def)

lemma score_range:
  assumes "nonneg (risk_total data)"
  shows "\<exists>s. calculateRisk data = Fin s \<and> 0 \<le> s \<and> s \<le> 100"
proof -
  obtain r where "clamp_0_100 (risk_total data) = Fin r" "0 \<le> r" "r \<le> 100"
    using clamp_range[OF assms] by auto
  then show ?thesis using round_range[of r] by (simp add: calculateRisk_steps)
qed

lemma score_mono:
  assumes "nonneg (risk_total d1)" "nonneg (risk_total d2)"
    and "js_le (risk_total d1) (risk_total d2)"
  shows "js_le (calculateRisk d1) (calculateRisk d2)"
proof -
  obtain r1 where r1: "clamp_0_100 (risk_total d1) = Fin r1" "0 \<le> r1" "r1 \<le> 100"
    using clamp_range[OF assms(1)] by auto
  obtain r2 where r2: "clamp_0_100 (risk_total d2) = Fin r2" "0 \<le> r2" "r2 \<le> 100"
    using clamp_range[OF assms(2)] by auto
  have "r1 \<le> r2" using clamp_mono[OF assms] by (simp add: r1 r2 js_le_Fin)
  then show ?thesis using round_mono[of r1 r2] r1 r2 by (simp add: calculateRisk_steps)
qed

section \<open>Evaluation\<close>

lemma F64_numeral: "(numeral w :: int) \<le> 2 ^ 53 \<Longrightarrow> F64 (numeral w) = Fin (numeral w)"
  using F64_int[of "numeral w"] by simp

lemma F64_neg_numeral:
  "(numeral w :: int) \<le> 2 ^ 53 \<Longrightarrow> F64 (- numeral w) = Fin (- numeral w)"
  using F64_int[of "- numeral w"] by simp

lemma F64_dyadic:
  assumes m: "\<bar>m\<bar> \<le> 2 ^ 53" and e: "- 1074 \<le> e" "e \<le> 970"
  shows "F64 (of_int m * 2 powi e) = Fin (of_int m * 2 powi e)"
proof -
  have r: "rd64 (of_int m * 2 powi e) = of_int m * 2 powi e" using m e(1) by (rule rd64_dyadic)
  have "(of_int \<bar>m\<bar> :: rat) \<le> of_int (2 ^ 53)" using m by (simp only: of_int_le_iff)
  then have "(of_int \<bar>m\<bar> :: rat) * 2 powi e \<le> of_int (2 ^ 53) * 2 powi e"
    using p2pos[of e] by (simp add: mult_right_mono)
  also have "(of_int (2 ^ 53) :: rat) * 2 powi e = 2 powi (53 + e)"
  proof -
    have "(of_int (2 ^ 53) :: rat) * 2 powi e = 2 powi 53 * 2 powi e" by simp
    also have "\<dots> = 2 powi (53 + e)" by (rule p2add)
    finally show ?thesis .
  qed
  also have "(2::rat) powi (53 + e) \<le> 2 powi 1023" using e by (intro p2mono) simp
  also have "(2::rat) powi 1023 < 2 ^ 1024" by simp
  finally have "\<bar>of_int m * 2 powi e :: rat\<bar> < 2 ^ 1024" using p2pos[of e] by (simp add: abs_mult)
  then show ?thesis using r by (rule F64_exact[rotated])
qed

lemma Math_round_int: "Math_round (Fin (of_int n)) = Fin (of_int n)"
proof -
  have "\<lfloor>(of_int n :: rat) + 1/2\<rfloor> = n" by (rule floor_unique) simp_all
  then show ?thesis by simp
qed

lemma Math_round_numeral: "Math_round (Fin (numeral w)) = Fin (numeral w)"
  using Math_round_int[of "numeral w"] by simp

lemma Math_round_half: "Math_round (Fin (of_int n + 1/2)) = Fin (of_int (n + 1))"
proof -
  have "\<lfloor>(of_int n :: rat) + 1/2 + 1/2\<rfloor> = n + 1" by (rule floor_unique) simp_all
  then show ?thesis by simp
qed

lemmas parse_defs = StringToNumber_def parseFloat_def parseInt_def TrimString_def
  TrimStart_def is_ws_def radix_of_prefix_def parse_decimal_def split_sign_def
  parse_unsigned_def parse_exponent_def is_digit_def digits_val_def digit_radix_def
  is_radix_digit_def

lemma StringToNumber_150: "StringToNumber ''150'' = Fin 150"
  by (simp add: parse_defs F64_numeral)

lemma StringToNumber_100: "StringToNumber ''100'' = Fin 100"
  by (simp add: parse_defs F64_numeral)

lemma StringToNumber_120: "StringToNumber ''120'' = Fin 120"
  by (simp add: parse_defs F64_numeral)

lemma StringToNumber_160: "StringToNumber ''160'' = Fin 160"
  by (simp add: parse_defs F64_numeral)

lemma StringToNumber_148_75: "StringToNumber ''148.75'' = Fin (595 / 4)"
  using F64_dyadic[of 595 "- 2"] by (simp add: parse_defs)

lemma parseFloat_120: "parseFloat ''120'' = Fin 120"
  by (simp add: parse_defs F64_numeral)

lemma parseFloat_abc: "parseFloat ''abc'' = NaN"
  by (simp add: parse_defs)

lemma StringToNumber_abc: "StringToNumber ''abc'' = NaN"
  by (simp add: parse_defs)

lemma count_of_sentinel: "count_of (Some ''not-available'') None"
  by (simp add: count_of_def)

lemma count_of_4: "count_of (Some ''4'') (Some 4)"
  by (simp add: count_of_def is_digit_def digits_val_def digit_radix_def)

lemma count_of_0: "count_of (Some ''0'') (Some 0)"
  by (simp add: count_of_def is_digit_def digits_val_def digit_radix_def)

lemma count_of_10: "count_of (Some ''10'') (Some 10)"
  by (simp add: count_of_def is_digit_def digits_val_def digit_radix_def)

lemma floor_rat_numeral: "\<lfloor>(numeral a :: rat) / numeral b\<rfloor> = numeral a div numeral b"
  using floor_divide_of_int_eq[of "numeral a" "numeral b", where ?'a = rat] by simp

lemma js_add_NaN_right: "js_add x NaN = NaN"
  by (cases x) simp_all

lemma F64_1_5: "F64 (3 / 2) = Fin (3 / 2)"
  using F64_dyadic[of 3 "- 1"] by simp

lemma F64_19_5: "F64 (39 / 2) = Fin (39 / 2)"
  using F64_dyadic[of 39 "- 1"] by simp

section \<open>The validator\<close>

lemma check_dob_errors:
  "errors (check_dob h \<lparr>formData = fd, errors = es\<rparr>) = es @ dob_errors h fd"
  by (auto simp: check_dob_def dob_errors_def push_def falsy_def ToString_str_def Let_def
           split: option.splits)

lemma check_dob_formData: "formData (check_dob h st) = formData st"
  by (auto simp: check_dob_def push_def Let_def split: option.splits)

lemma check_anaemia_errors: "errors (check_anaemia st) = errors st @ anaemia_errors (formData st)"
  by (simp add: check_anaemia_def anaemia_errors_def push_def)

lemma check_anaemia_formData: "formData (check_anaemia st) = formData st"
  by (simp add: check_anaemia_def push_def)

lemma check_haemoglobin_errors:
  "errors (check_haemoglobin st) = errors st @ haemoglobin_errors (formData st)"
  by (simp add: check_haemoglobin_def haemoglobin_errors_def push_def Let_def)

lemma check_haemoglobin_formData: "formData (check_haemoglobin st) = formData st"
  by (simp add: check_haemoglobin_def push_def Let_def)

lemma check_parasiteCount_errors:
  "errors (check_parasiteCount st) = errors st @ parasite_errors (formData st)"
  by (simp add: check_parasiteCount_def parasite_errors_def push_def)


lemma validateForm_fields:
  "validateForm h fd =
     dob_errors h fd @ anaemia_errors fd @ haemoglobin_errors fd @ parasite_errors fd"
proof -
  define s0 where "s0 = \<lparr>formData = fd, errors = []\<rparr>"
  have s1: "errors (check_dob h s0) = dob_errors h fd"
    unfolding s0_def by (simp add: check_dob_errors)
  have f1: "formData (check_dob h s0) = fd" by (simp add: check_dob_formData s0_def)
  show ?thesis
    unfolding validateForm_def validateForm_run_def s0_def[symmetric]
    by (simp add: check_parasiteCount_errors check_haemoglobin_errors check_anaemia_errors
          check_haemoglobin_formData check_anaemia_formData s1 f1)
qed



text \<open>
  C9. A haemoglobin field that is not empty and that \<open>parseFloat\<close> reads as NaN gets no
  haemoglobin message: the result is what the other three fields give, so the input is
  accepted when they are in order.
\<close>

theorem validateForm_NaN_haemoglobin_accepted:
  assumes "haemoglobin fd = Some hb" and "hb \<noteq> []" and "parseFloat hb = NaN"
  shows "''Haemoglobin level is required'' \<notin> set (validateForm h fd) \<and>
         ''Haemoglobin must be between 20-180 g/L'' \<notin> set (validateForm h fd) \<and>
         validateForm h fd = dob_errors h fd @ anaemia_errors fd @ parasite_errors fd"
  using assms
  by (simp add: validateForm_fields dob_errors_def anaemia_errors_def
        haemoglobin_errors_def parasite_errors_def falsy_def ToString_str_def js_gt_def)

section \<open>The age calculator\<close>

lemma days_in_month_le: "days_in_month y m \<le> 31"
  by (simp add: days_in_month_def)

lemma valid_date_small:
  assumes "valid_date d"
  shows "\<bar>fullYear d\<bar> \<le> 2 ^ 52" and "\<bar>month d\<bar> \<le> 2 ^ 52" and "\<bar>dayOfMonth d\<bar> \<le> 2 ^ 52"
proof -
  have y: "- 271821 \<le> fullYear d" "fullYear d \<le> 275760"
    and m: "0 \<le> month d" "month d \<le> 11"
    and d: "1 \<le> dayOfMonth d" "dayOfMonth d \<le> days_in_month (fullYear d) (month d)"
    using assms by (simp_all add: valid_date_def)
  have p: "(2::int) ^ 52 = 4503599627370496" by simp
  show "\<bar>fullYear d\<bar> \<le> 2 ^ 52" unfolding p using y by linarith
  show "\<bar>month d\<bar> \<le> 2 ^ 52" unfolding p using m by linarith
  show "\<bar>dayOfMonth d\<bar> \<le> 2 ^ 52"
    unfolding p using d days_in_month_le[of "fullYear d" "month d"] by linarith
qed

lemma F64_int52: "\<bar>n\<bar> \<le> 2 ^ 52 \<Longrightarrow> F64 (of_int n) = Fin (of_int n)"
  by (rule F64_int) simp

lemma getFullYear_valid:
  assumes "valid_date d"
  shows "getFullYear (Some d) = Fin (of_int (fullYear d))"
  using F64_int52[OF valid_date_small(1)[OF assms]] by (simp add: getFullYear_def)

lemma getMonth_valid:
  assumes "valid_date d"
  shows "getMonth (Some d) = Fin (of_int (month d))"
  using F64_int52[OF valid_date_small(2)[OF assms]] by (simp add: getMonth_def)

lemma getDate_valid:
  assumes "valid_date d"
  shows "getDate (Some d) = Fin (of_int (dayOfMonth d))"
  using F64_int52[OF valid_date_small(3)[OF assms]] by (simp add: getDate_def)

lemma js_sub_small:
  assumes "\<bar>a\<bar> \<le> 275760" and "\<bar>b\<bar> \<le> 275760"
  shows "js_sub (Fin (of_int a)) (Fin (of_int b)) = Fin (of_int (a - b))"
proof -
  have "\<bar>a - b\<bar> \<le> 9007199254740992" using assms by linarith
  then have "\<bar>a - b\<bar> \<le> 2 ^ 53" by simp
  then have "F64 (of_int (a - b)) = Fin (of_int (a - b))" by (rule F64_int)
  then show ?thesis by (simp add: js_sub_def)
qed

lemma calculateAge_years:
  assumes t: "valid_date (today h)" and n: "newDate h birthDate = Some b" and b: "valid_date b"
  shows "calculateAge h birthDate = Fin (of_int (age_spec (today h) b))"
proof -
  let ?y = "fullYear (today h) - fullYear b"
  let ?m = "month (today h) - month b"
  have ty: "- 271821 \<le> fullYear (today h)" "fullYear (today h) \<le> 275760"
    and tm: "0 \<le> month (today h)" "month (today h) \<le> 11"
    using t by (simp_all add: valid_date_def)
  have yb: "- 271821 \<le> fullYear b" "fullYear b \<le> 275760"
    and mb: "0 \<le> month b" "month b \<le> 11"
    using b by (simp_all add: valid_date_def)
  have ys: "js_sub (getFullYear (Some (today h))) (getFullYear (Some b)) = Fin (of_int ?y)"
    unfolding getFullYear_valid[OF t] getFullYear_valid[OF b]
  proof (rule js_sub_small)
    show "\<bar>fullYear (today h)\<bar> \<le> 275760" using ty by linarith
    show "\<bar>fullYear b\<bar> \<le> 275760" using yb by linarith
  qed
  have ms: "js_sub (getMonth (Some (today h))) (getMonth (Some b)) = Fin (of_int ?m)"
    unfolding getMonth_valid[OF t] getMonth_valid[OF b]
  proof (rule js_sub_small)
    show "\<bar>month (today h)\<bar> \<le> 275760" using tm by linarith
    show "\<bar>month b\<bar> \<le> 275760" using mb by linarith
  qed
  have "\<bar>?y - 1\<bar> \<le> 9007199254740992" using ty yb by linarith
  then have "\<bar>?y - 1\<bar> \<le> 2 ^ 53" by simp
  then have "F64 (of_int (?y - 1)) = Fin (of_int (?y - 1))" by (rule F64_int)
  then have y1: "js_sub (Fin (of_int ?y)) (Fin 1) = Fin (of_int (?y - 1))"
    by (simp add: js_sub_def)
  have "calculateAge h birthDate =
          (if ?m < 0 \<or> (?m = 0 \<and> dayOfMonth (today h) < dayOfMonth b)
           then Fin (of_int (?y - 1)) else Fin (of_int ?y))"
    unfolding calculateAge_def Let_def n ys ms getDate_valid[OF t] getDate_valid[OF b] y1
    by (simp add: js_seq_def del: of_int_diff)
  then show ?thesis by (auto simp: age_spec_def simp del: of_int_diff)
qed

lemma age_spec_future: "date_before ref b \<Longrightarrow> age_spec ref b < 0"
  by (auto simp: date_before_def age_spec_def)

lemma next_day_after: "date_before d (next_day d)"
  by (simp add: date_before_def next_day_def)

text \<open>
  When the Date object of the birth date shows a calendar-valid day \<open>b\<close>, the result is
  the number of whole years from \<open>b\<close> to today: the difference of the years, one less
  exactly when today's month and day come before those of \<open>b\<close>. Then a day \<open>b\<close> after
  today gives a negative number, and the validator reports it. Whether \<open>b\<close> is the day
  the text names is the host's matter; the worked dates below show a host where it is not.
\<close>

lemma calculateAge_of_shown_day:
  assumes "valid_date (today h)" and "newDate h birthDate = Some b" and "valid_date b"
  shows "calculateAge h birthDate = Fin (of_int (age_spec (today h) b)) \<and>
         (date_before (today h) b \<longrightarrow> js_lt (calculateAge h birthDate) (Fin 0)) \<and>
         (b = next_day (today h) \<and> dob fd = Some birthDate \<and> birthDate \<noteq> [] \<and>
          anaemia_errors fd = [] \<and> haemoglobin_errors fd = [] \<and> parasite_errors fd = [] \<longrightarrow>
          validateForm h fd = [''Date of birth cannot be in the future''])"
proof -
  have a: "calculateAge h birthDate = Fin (of_int (age_spec (today h) b))"
    using assms by (rule calculateAge_years)
  have f: "date_before (today h) b \<Longrightarrow> js_lt (calculateAge h birthDate) (Fin 0)"
    using age_spec_future[of "today h" b] by (simp add: a)
  have n: "b = next_day (today h) \<Longrightarrow> js_lt (calculateAge h birthDate) (Fin 0)"
    using f next_day_after[of "today h"] by simp
  have g: "date_before (today h) b \<Longrightarrow> \<not> js_gt (calculateAge h birthDate) (Fin 120)"
    using age_spec_future[of "today h" b] by (simp add: a js_gt_def)
  show ?thesis using a f n g next_day_after[of "today h"]
    by (auto simp: validateForm_fields dob_errors_def falsy_def ToString_str_def)
qed

section \<open>Worked dates\<close>

lemma example_today_valid: "valid_date (today example_host)"
  by (simp add: example_host_def valid_date_def days_in_month_def)

lemma calculateAge_example_1990: "calculateAge example_host ''1990-03-20'' = Fin 34"
proof -
  let ?b = "\<lparr>fullYear = 1990, month = 2, dayOfMonth = 20\<rparr>"
  have n: "newDate example_host ''1990-03-20'' = Some ?b" by (simp add: example_host_def)
  have v: "valid_date ?b" by (simp add: valid_date_def days_in_month_def)
  show ?thesis
    unfolding calculateAge_years[OF example_today_valid n v]
    by (simp add: age_spec_def example_host_def)
qed


theorem validateForm_NaN_haemoglobin_accepted_witness:
  "haemoglobin patient_text_hb = Some ''abc'' \<and> parseFloat ''abc'' = NaN \<and>
   validateForm example_host patient_text_hb = []"
  using validateForm_NaN_haemoglobin_accepted[of patient_text_hb "''abc''" example_host]
  by (simp add: patient_text_hb_def parseFloat_abc dob_errors_def anaemia_errors_def
        parasite_errors_def falsy_def ToString_str_def calculateAge_example_1990 js_gt_def)

lemma parse_2024_06_16:
  "parse_date_only ''2024-06-16'' = Some \<lparr>fullYear = 2024, month = 5, dayOfMonth = 16\<rparr>"
  by (simp add: parse_date_only_def is_digit_def digits_val_def digit_radix_def days_in_month_def leap_year_def Let_def)

lemma parse_2000_06_16:
  "parse_date_only ''2000-06-16'' = Some \<lparr>fullYear = 2000, month = 5, dayOfMonth = 16\<rparr>"
  by (simp add: parse_date_only_def is_digit_def digits_val_def digit_radix_def days_in_month_def leap_year_def Let_def)

lemma behind_today: "today behind_host = \<lparr>fullYear = 2024, month = 5, dayOfMonth = 15\<rparr>"
  by (simp add: behind_host_def zoned_host_def)

lemma utc_today: "today utc_host = \<lparr>fullYear = 2024, month = 5, dayOfMonth = 15\<rparr>"
  by (simp add: utc_host_def zoned_host_def)

lemma behind_2024_06_16:
  "newDate behind_host ''2024-06-16'' = Some \<lparr>fullYear = 2024, month = 5, dayOfMonth = 15\<rparr>"
  by (simp add: behind_host_def zoned_host_def parse_2024_06_16 prev_day_def)

lemma behind_2000_06_16:
  "newDate behind_host ''2000-06-16'' = Some \<lparr>fullYear = 2000, month = 5, dayOfMonth = 15\<rparr>"
  by (simp add: behind_host_def zoned_host_def parse_2000_06_16 prev_day_def)

lemma utc_2024_06_16:
  "newDate utc_host ''2024-06-16'' = Some \<lparr>fullYear = 2024, month = 5, dayOfMonth = 16\<rparr>"
  by (simp add: utc_host_def zoned_host_def parse_2024_06_16)

lemma utc_2000_06_16:
  "newDate utc_host ''2000-06-16'' = Some \<lparr>fullYear = 2000, month = 5, dayOfMonth = 16\<rparr>"
  by (simp add: utc_host_def zoned_host_def parse_2000_06_16)

lemma valid_2024_06_15: "valid_date \<lparr>fullYear = 2024, month = 5, dayOfMonth = 15\<rparr>"
  by (simp add: valid_date_def days_in_month_def)

lemma valid_2024_06_16: "valid_date \<lparr>fullYear = 2024, month = 5, dayOfMonth = 16\<rparr>"
  by (simp add: valid_date_def days_in_month_def)

lemma valid_2000_06_15: "valid_date \<lparr>fullYear = 2000, month = 5, dayOfMonth = 15\<rparr>"
  by (simp add: valid_date_def days_in_month_def)

lemma valid_2000_06_16: "valid_date \<lparr>fullYear = 2000, month = 5, dayOfMonth = 16\<rparr>"
  by (simp add: valid_date_def days_in_month_def)

lemma calculateAge_behind_tomorrow: "calculateAge behind_host ''2024-06-16'' = Fin 0"
  using calculateAge_years[of behind_host "''2024-06-16''", OF _ behind_2024_06_16 valid_2024_06_15]
  by (simp add: behind_today valid_2024_06_15 age_spec_def)

lemma calculateAge_behind_eve: "calculateAge behind_host ''2000-06-16'' = Fin 24"
  using calculateAge_years[of behind_host "''2000-06-16''", OF _ behind_2000_06_16 valid_2000_06_15]
  by (simp add: behind_today valid_2024_06_15 age_spec_def)

lemma calculateAge_utc_tomorrow: "calculateAge utc_host ''2024-06-16'' = Fin (- 1)"
  using calculateAge_years[of utc_host "''2024-06-16''", OF _ utc_2024_06_16 valid_2024_06_16]
  by (simp add: utc_today valid_2024_06_15 age_spec_def)

lemma calculateAge_utc_eve: "calculateAge utc_host ''2000-06-16'' = Fin 23"
  using calculateAge_years[of utc_host "''2000-06-16''", OF _ utc_2000_06_16 valid_2000_06_16]
  by (simp add: utc_today valid_2024_06_15 age_spec_def)

lemma other_errors_tomorrow:
  "anaemia_errors patient_tomorrow = [] \<and> haemoglobin_errors patient_tomorrow = [] \<and>
   parasite_errors patient_tomorrow = []"
  by (simp add: patient_tomorrow_def anaemia_errors_def haemoglobin_errors_def
        parasite_errors_def falsy_def ToString_str_def parseFloat_120 js_gt_def)

text \<open>
  C4. The claim fails in a time zone behind UTC. The birth date is a date-only text, which
  the language reads as midnight UTC, and \<open>calculateAge\<close> takes its year, month and day
  with the local getters; behind UTC these show the day before the one the text names. On
  15 June 2024, five hours behind UTC, the birth date 16 June 2024 is one day in the
  future: the specification's age is -1, the program returns 0, and \<open>validateForm\<close>
  reports no error for the otherwise valid form. On the same day the birth date
  16 June 2000 has its birthday tomorrow, so 23 whole years have passed, and the program
  returns 24. At UTC the same inputs give -1, the one message that the date cannot be in
  the future, and 23.
\<close>

theorem calculateAge_behind_UTC:
  "today behind_host = \<lparr>fullYear = 2024, month = 5, dayOfMonth = 15\<rparr> \<and>
   dob patient_tomorrow = Some ''2024-06-16'' \<and>
   parse_date_only ''2024-06-16'' = Some (next_day (today behind_host)) \<and>
   age_spec (today behind_host) (next_day (today behind_host)) = - 1 \<and>
   calculateAge behind_host ''2024-06-16'' = Fin 0 \<and>
   validateForm behind_host patient_tomorrow = [] \<and>
   parse_date_only ''2000-06-16'' = Some \<lparr>fullYear = 2000, month = 5, dayOfMonth = 16\<rparr> \<and>
   age_spec (today behind_host) \<lparr>fullYear = 2000, month = 5, dayOfMonth = 16\<rparr> = 23 \<and>
   calculateAge behind_host ''2000-06-16'' = Fin 24 \<and>
   calculateAge utc_host ''2024-06-16'' = Fin (- 1) \<and>
   validateForm utc_host patient_tomorrow = [''Date of birth cannot be in the future''] \<and>
   calculateAge utc_host ''2000-06-16'' = Fin 23"
proof -
  have "dob_errors behind_host patient_tomorrow = []"
    by (simp add: dob_errors_def patient_tomorrow_def falsy_def ToString_str_def
          calculateAge_behind_tomorrow js_gt_def)
  then have "validateForm behind_host patient_tomorrow = []"
    by (simp add: validateForm_fields other_errors_tomorrow)
  moreover have "dob_errors utc_host patient_tomorrow =
                   [''Date of birth cannot be in the future'']"
    by (simp add: dob_errors_def patient_tomorrow_def falsy_def ToString_str_def
          calculateAge_utc_tomorrow js_gt_def)
  then have "validateForm utc_host patient_tomorrow =
               [''Date of birth cannot be in the future'']"
    by (simp add: validateForm_fields other_errors_tomorrow)
  moreover have "parse_date_only ''2024-06-16'' = Some (next_day (today behind_host))"
    by (simp add: parse_2024_06_16 behind_today next_day_def days_in_month_def)
  moreover have "age_spec (today behind_host) (next_day (today behind_host)) = - 1"
    by (simp add: behind_today next_day_def days_in_month_def age_spec_def)
  moreover have "age_spec (today behind_host) \<lparr>fullYear = 2000, month = 5, dayOfMonth = 16\<rparr> = 23"
    by (simp add: behind_today age_spec_def)
  moreover have "dob patient_tomorrow = Some ''2024-06-16''" by (simp add: patient_tomorrow_def)
  ultimately show ?thesis
    by (simp only: behind_today parse_2000_06_16 calculateAge_behind_tomorrow
          calculateAge_behind_eve calculateAge_utc_tomorrow calculateAge_utc_eve simp_thms)
qed

section \<open>The risk score\<close>

lemma lit_0_3: "F64 (3/10) = Fin (5404319552844595 / 18014398509481984)"
  using F64_eqI[of "- 2" "3/10" 5404319552844595] by simp

lemma lit_0_2: "F64 (2/10) = Fin (3602879701896397 / 18014398509481984)"
  using F64_eqI[of "- 3" "2/10" 7205759403792794] by simp

lemma js_add_zero_right: "js_add (js_add x y) (Fin 0) = js_add x y"
proof -
  have f: "js_add (F64 q) (Fin 0) = F64 q" for q
    using F64_cases[of q] F64_idem[of q "rd64 q"] by auto
  show ?thesis by (cases x; cases y) (simp_all add: f)
qed

lemma digit_not_ws: "is_digit c \<Longrightarrow> \<not> is_ws c"
  by (auto simp: is_digit_def is_ws_def)

lemma digit_not_sign: "is_digit c \<Longrightarrow> c \<noteq> CHR ''-'' \<and> c \<noteq> CHR ''+''"
  by (auto simp: is_digit_def)

lemma digit_radix10: "is_digit c \<Longrightarrow> is_radix_digit 10 c"
  by (auto simp: is_digit_def is_radix_digit_def digit_radix_def Let_def)

lemma digits_no_hex:
  assumes "list_all is_digit s"
  shows "take 2 s \<noteq> ''0x'' \<and> take 2 s \<noteq> ''0X''"
proof -
  have x: "\<not> is_digit (CHR ''x'')" "\<not> is_digit (CHR ''X'')" by (simp_all add: is_digit_def)
  show ?thesis
  proof (cases s)
    case Nil
    then show ?thesis by simp
  next
    case (Cons a t)
    then show ?thesis using assms x by (cases t) auto
  qed
qed

lemma parseInt_digits:
  assumes ne: "s \<noteq> []" and ds: "list_all is_digit s"
  shows "parseInt s = F64 (of_nat (digits_val 10 s))"
proof -
  obtain c t where s: "s = c # t" using ne by (cases s) auto
  have c: "is_digit c" using ds s by simp
  have trim: "TrimStart s = s" using digit_not_ws[OF c] by (simp add: TrimStart_def s)
  have sign: "split_sign s = (False, s)" using digit_not_sign[OF c] by (simp add: split_sign_def s)
  have "\<forall>x\<in>set s. is_radix_digit 10 x" using ds digit_radix10 by (auto simp: list_all_iff)
  then have tw: "takeWhile (is_radix_digit 10) s = s" by (simp add: takeWhile_eq_all_conv)
  show ?thesis using digits_no_hex[OF ds] ne by (simp add: parseInt_def trim sign tw Let_def)
qed

lemma digits_not_sentinel: "list_all is_digit s \<Longrightarrow> s \<noteq> ''not-available''"
  by (auto simp: is_digit_def)

lemma risk_total_typed:
  assumes a: "age data = Some (Fin (of_int a))"
    and h: "haemoglobin data = Some hs" "StringToNumber hs = Fin hb"
    and p: "count_of (parasiteCount data) p"
  shows "risk_total data = typed_total a (anaemia data = Some ''yes'') hb p"
proof (cases p)
  case None
  then have "parasiteCount data = Some ''not-available''" using p by (simp add: count_of_def)
  then show ?thesis using a h None
    by (simp add: risk_total_def typed_total_def age_contribution_def anaemia_contribution_def
          haemoglobin_contribution_def parasite_contribution_def ToNumber_num_def
          ToNumber_str_def js_gt_def js_add_zero_right Let_def)
next
  case (Some n)
  then obtain ds where ds: "parasiteCount data = Some ds" "ds \<noteq> []" "list_all is_digit ds"
    "n = digits_val 10 ds" using p by (auto simp: count_of_def split: option.splits)
  have pi: "parseInt ds = F64 (of_nat n)" using ds by (simp add: parseInt_digits)
  have ns: "ds \<noteq> ''not-available''" using ds(3) by (rule digits_not_sentinel)
  show ?thesis using a h Some ds(1) ns
    by (simp add: risk_total_def typed_total_def age_contribution_def anaemia_contribution_def
          haemoglobin_contribution_def parasite_contribution_def ToNumber_num_def
          ToNumber_str_def ToString_str_def js_gt_def js_add_zero_right pi Let_def)
qed


lemma age_contribution_nonneg: "nonneg (age_contribution a)"
proof -
  have "nonneg (js_mul (Fin (of_int a)) (Fin (5404319552844595 / 18014398509481984)))"
    if "5 \<le> a" using that by (intro js_mul_const_nonneg) (simp_all add: nonneg_Fin)
  then show ?thesis by (auto simp: age_contribution_def lit_0_3 nonneg_Fin)
qed

lemma anaemia_contribution_nonneg: "nonneg (anaemia_contribution yes)"
  by (simp add: anaemia_contribution_def nonneg_Fin)

lemma js_mul_const_not_NaN: "c \<noteq> 0 \<Longrightarrow> js_mul (F64 q) (Fin c) \<noteq> NaN"
  using F64_cases[of q] by (auto simp: inf_of_sign_def F64_not_NaN split: if_splits)

lemma js_sub_Fin: "js_sub (Fin a) (Fin b) = F64 (a - b)"
  by (simp add: js_sub_def)

lemma haemoglobin_contribution_nonneg: "nonneg (haemoglobin_contribution hb)"
  unfolding haemoglobin_contribution_def lit_0_2 js_sub_Fin
  by (intro Math_max_0_nonneg js_mul_const_not_NaN) simp

lemma parasite_contribution_nonneg: "nonneg (parasite_contribution p)"
proof (cases p)
  case None
  then show ?thesis by (simp add: parasite_contribution_def nonneg_Fin)
next
  case (Some n)
  have "nonneg (js_mul (F64 (of_nat n)) (Fin 5))"
    by (intro js_mul_const_nonneg F64_nonneg) simp_all
  then show ?thesis using Some by (simp add: parasite_contribution_def)
qed

lemma base_nonneg:
  "nonneg (js_add (js_add (Fin 0) (age_contribution a)) (anaemia_contribution yes))"
  by (intro js_add_nonneg age_contribution_nonneg anaemia_contribution_nonneg)
     (simp add: nonneg_Fin)

lemma typed_total_nonneg: "nonneg (typed_total a yes hb p)"
  unfolding typed_total_def
  by (intro js_add_nonneg base_nonneg haemoglobin_contribution_nonneg
        parasite_contribution_nonneg)

lemma nonneg_le_refl: "nonneg x \<Longrightarrow> js_le x x"
  by (simp add: js_le_refl nonneg_not_NaN)

lemma parasite_contribution_mono:
  assumes "n1 \<le> n2"
  shows "js_le (parasite_contribution (Some n1)) (parasite_contribution (Some n2))"
proof -
  have "js_le (F64 (of_nat n1)) (F64 (of_nat n2))" using assms by (intro F64_mono) simp_all
  then have "js_le (js_mul (F64 (of_nat n1)) (Fin 5)) (js_mul (F64 (of_nat n2)) (Fin 5))"
    by (intro js_mul_const_mono F64_nonneg) simp_all
  then show ?thesis by (simp add: parasite_contribution_def)
qed

lemma haemoglobin_contribution_antimono:
  assumes "h1 \<le> h2" and "h2 \<le> 150"
  shows "js_le (haemoglobin_contribution h2) (haemoglobin_contribution h1)"
proof -
  have n1: "nonneg (F64 (150 - h1))" and n2: "nonneg (F64 (150 - h2))"
    using assms by (simp_all add: F64_nonneg)
  have le: "js_le (F64 (150 - h2)) (F64 (150 - h1))" using assms by (intro F64_mono) simp_all
  let ?c = "5404319552844595 / 18014398509481984 :: rat"
  let ?d = "3602879701896397 / 18014398509481984 :: rat"
  have m: "js_le (js_mul (F64 (150 - h2)) (Fin ?d)) (js_mul (F64 (150 - h1)) (Fin ?d))"
    using n2 n1 le by (rule js_mul_const_mono) simp
  have k1: "nonneg (js_mul (F64 (150 - h1)) (Fin ?d))" using n1 by (rule js_mul_const_nonneg) simp
  have k2: "nonneg (js_mul (F64 (150 - h2)) (Fin ?d))" using n2 by (rule js_mul_const_nonneg) simp
  show ?thesis
    unfolding haemoglobin_contribution_def lit_0_2 js_sub_Fin
    using m by (simp add: Math_max_0_id[OF k1] Math_max_0_id[OF k2])
qed

lemma typed_total_mono_parasite:
  assumes "n1 \<le> n2"
  shows "js_le (typed_total a yes hb (Some n1)) (typed_total a yes hb (Some n2))"
  unfolding typed_total_def
  by (intro js_add_mono js_add_nonneg base_nonneg haemoglobin_contribution_nonneg
        parasite_contribution_nonneg nonneg_le_refl parasite_contribution_mono assms)

lemma typed_total_antimono_haemoglobin:
  assumes "h1 \<le> h2" and "h2 \<le> 150"
  shows "js_le (typed_total a yes h2 p) (typed_total a yes h1 p)"
  unfolding typed_total_def
  by (intro js_add_mono js_add_nonneg base_nonneg haemoglobin_contribution_nonneg
        parasite_contribution_nonneg nonneg_le_refl haemoglobin_contribution_antimono assms)

lemma calculateRisk_typed:
  assumes "age data = Some (Fin (of_int a))"
    and "haemoglobin data = Some hs" "StringToNumber hs = Fin hb"
    and "count_of (parasiteCount data) p"
  shows "calculateRisk data = typed_score a (anaemia data = Some ''yes'') hb p"
  using risk_total_typed[OF assms] by (simp add: calculateRisk_steps typed_score_def)

lemma mul_50_lit_0_2: "F64 (90071992547409925 / 9007199254740992) = Fin 10"
  using F64_eqI[of 3 "90071992547409925 / 9007199254740992" 5629499534213120] by simp

lemma mul_40_lit_0_3: "F64 (27021597764222975 / 2251799813685248) = Fin 12"
  using F64_eqI[of 3 "27021597764222975 / 2251799813685248" 6755399441055744] by simp

lemma mul_neg10_lit_0_2: "F64 (- (18014398509481985 / 9007199254740992)) = Fin (- 2)"
  using F64_eqI[of 1 "- (18014398509481985 / 9007199254740992)" "- 4503599627370496"] by simp

lemma haemoglobin_contribution_150: "haemoglobin_contribution 150 = Fin 0"
  unfolding haemoglobin_contribution_def lit_0_2 js_sub_Fin
  by (simp add: F64_zero Math_max_def)

lemma haemoglobin_contribution_100: "haemoglobin_contribution 100 = Fin 10"
  unfolding haemoglobin_contribution_def lit_0_2 js_sub_Fin
  by (simp add: F64_numeral mul_50_lit_0_2 Math_max_def)

lemma haemoglobin_contribution_160: "haemoglobin_contribution 160 = Fin 0"
  unfolding haemoglobin_contribution_def lit_0_2 js_sub_Fin
  by (simp add: F64_neg_numeral mul_neg10_lit_0_2 Math_max_def)

lemma age_contribution_40: "age_contribution 40 = Fin 12"
  unfolding age_contribution_def lit_0_3 by (simp add: mul_40_lit_0_3)

lemma round_clamp_int:
  assumes "0 \<le> n" and "n \<le> 100"
  shows "round_one_decimal (clamp_0_100 (Fin (of_int n))) = Fin (of_int n)"
proof -
  have "\<bar>n * 10\<bar> \<le> 9007199254740992" using assms by linarith
  then have "\<bar>n * 10\<bar> \<le> 2 ^ 53" by simp
  then have "F64 (of_int (n * 10)) = Fin (of_int (n * 10))" by (rule F64_int)
  then have t: "F64 (of_int n * 10) = Fin (of_int (n * 10))" by simp
  have r: "Math_round (Fin (of_int (n * 10))) = Fin (of_int (n * 10))" by (rule Math_round_int)
  have "\<bar>n\<bar> \<le> 9007199254740992" using assms by linarith
  then have "\<bar>n\<bar> \<le> 2 ^ 53" by simp
  then have d: "F64 (of_int n) = Fin (of_int n)" by (rule F64_int)
  have c: "clamp_0_100 (Fin (of_int n)) = Fin (of_int n)"
    using assms by (simp add: clamp_Fin min_def)
  have "js_div (Fin (of_int (n * 10))) (Fin 10) = Fin (of_int n)" using d by simp
  then show ?thesis unfolding c round_one_decimal_def js_mul.simps t r .
qed

lemma round_clamp_15: "round_one_decimal (clamp_0_100 (Fin 15)) = Fin 15"
  using round_clamp_int[of 15] by simp

lemma round_clamp_75: "round_one_decimal (clamp_0_100 (Fin 75)) = Fin 75"
  using round_clamp_int[of 75] by simp

lemma round_clamp_12: "round_one_decimal (clamp_0_100 (Fin 12)) = Fin 12"
  using round_clamp_int[of 12] by simp

lemma typed_score_ex1: "typed_score 70 False 150 None = Fin 15"
  unfolding typed_score_def typed_total_def haemoglobin_contribution_150
  by (simp add: age_contribution_def anaemia_contribution_def parasite_contribution_def
        F64_numeral round_clamp_15 round_clamp_75 round_clamp_12)

lemma typed_score_ex2: "typed_score 3 True 100 (Some 4) = Fin 75"
  unfolding typed_score_def typed_total_def haemoglobin_contribution_100
  by (simp add: age_contribution_def anaemia_contribution_def parasite_contribution_def
        F64_numeral round_clamp_15 round_clamp_75 round_clamp_12)

lemma typed_score_ex3: "typed_score 40 False 160 (Some 0) = Fin 12"
  unfolding typed_score_def typed_total_def haemoglobin_contribution_160 age_contribution_40
  by (simp add: anaemia_contribution_def parasite_contribution_def
        F64_zero F64_numeral round_clamp_15 round_clamp_75 round_clamp_12)


lemma mul_5_lit_0_3: "F64 (27021597764222975 / 18014398509481984) = Fin (3 / 2)"
  using F64_eqI[of 0 "27021597764222975 / 18014398509481984" 6755399441055744] by simp

lemma mul_65_lit_0_3: "F64 (351280770934898675 / 18014398509481984) = Fin (39 / 2)"
  using F64_eqI[of 4 "351280770934898675 / 18014398509481984" 5488762045857792] by simp

lemma age_contribution_5: "age_contribution 5 = Fin (3 / 2)"
  unfolding age_contribution_def lit_0_3 by (simp add: mul_5_lit_0_3)

lemma age_contribution_65: "age_contribution 65 = Fin (39 / 2)"
  unfolding age_contribution_def lit_0_3 by (simp add: mul_65_lit_0_3)

lemma round_clamp_1_5: "round_one_decimal (clamp_0_100 (Fin (3 / 2))) = Fin (3 / 2)"
  by (simp add: clamp_Fin round_one_decimal_def F64_numeral floor_rat_numeral F64_1_5)

lemma round_clamp_19_5: "round_one_decimal (clamp_0_100 (Fin (39 / 2))) = Fin (39 / 2)"
  by (simp add: clamp_Fin round_one_decimal_def F64_numeral floor_rat_numeral F64_19_5)

lemma calculateRisk_age5: "calculateRisk patient_age5 = Fin (3 / 2)"
proof -
  have "calculateRisk patient_age5 = typed_score 5 False 150 None"
    using calculateRisk_typed[of patient_age5 5 "''150''" 150 None]
    by (simp add: patient_age5_def StringToNumber_150 count_of_sentinel)
  also have "\<dots> = Fin (3 / 2)"
    unfolding typed_score_def typed_total_def haemoglobin_contribution_150 age_contribution_5
    by (simp add: anaemia_contribution_def parasite_contribution_def F64_1_5 round_clamp_1_5)
  finally show ?thesis .
qed

lemma calculateRisk_age65: "calculateRisk patient_age65 = Fin (39 / 2)"
proof -
  have "calculateRisk patient_age65 = typed_score 65 False 150 None"
    using calculateRisk_typed[of patient_age65 65 "''150''" 150 None]
    by (simp add: patient_age65_def StringToNumber_150 count_of_sentinel)
  also have "\<dots> = Fin (39 / 2)"
    unfolding typed_score_def typed_total_def haemoglobin_contribution_150 age_contribution_65
    by (simp add: anaemia_contribution_def parasite_contribution_def F64_19_5 round_clamp_19_5)
  finally show ?thesis .
qed

section \<open>The rounding error of the score\<close>

text \<open>
  A binary64 result below 1024 in size is within \<open>2 powi (- 44)\<close> of the exact result of
  its operator. On a validated input with a count of at most 21 every intermediate value
  of \<open>calculateRisk\<close> is that small, so the errors add up: the accumulator is within 9
  such units of the exact sum, and the number handed to \<open>Math.round\<close> within 91 of ten
  times the exact clamped sum. From a count of 21 on, the accumulator and the exact sum
  are both above 100 and the clamp returns 100 for either.
\<close>

lemma rne_err: "\<bar>of_int (rne x) - x\<bar> \<le> 1/2"
proof -
  have "of_int \<lfloor>x\<rfloor> \<le> x" and "x < of_int \<lfloor>x\<rfloor> + 1" by linarith+
  then show ?thesis unfolding rne_def Let_def by (auto simp: abs_le_iff)
qed

lemma rd64_err:
  assumes "\<bar>q\<bar> < 2 powi (k + 1)" and "- 1074 \<le> k - 52"
  shows "\<bar>rd64 q - q\<bar> \<le> 2 powi (k - 53)"
proof (cases "q = 0")
  case True
  then show ?thesis using p2pos[of "k - 53"] by (simp add: rd64_zero)
next
  case False
  define u :: rat where "u = 2 powi fexp q"
  have up: "0 < u" unfolding u_def by (rule p2pos)
  have "ilog2 q \<le> k" using False assms(1) by (rule ilog2_le)
  then have "fexp q \<le> k - 52" using assms(2) by (simp add: fexp_def)
  then have ule: "u \<le> 2 powi (k - 52)" unfolding u_def by (rule p2mono)
  have "(2::rat) powi 1 * 2 powi (k - 53) = 2 powi (1 + (k - 53))" by (rule p2add)
  then have h: "(2::rat) powi (k - 52) = 2 * 2 powi (k - 53)" by simp
  have r: "rd64 q = of_int (rne (q / u)) * u" using False by (simp add: rd64_def u_def)
  have "rd64 q - q = (of_int (rne (q / u)) - q / u) * u" using up by (simp add: r field_simps)
  then have "\<bar>rd64 q - q\<bar> = \<bar>of_int (rne (q / u)) - q / u\<bar> * u"
    using up by (simp add: abs_mult)
  also have "\<dots> \<le> (1/2) * u" using rne_err[of "q / u"] up by (intro mult_right_mono) simp_all
  also have "\<dots> \<le> 2 powi (k - 53)" using ule h by simp
  finally show ?thesis .
qed

lemma F64_err:
  assumes "\<bar>q\<bar> < 1024"
  shows "F64 q = Fin (rd64 q) \<and> \<bar>rd64 q - q\<bar> \<le> 1/17592186044416"
proof -
  have "\<bar>q\<bar> < 2 powi (9 + 1)" using assms by simp
  then have "\<bar>rd64 q - q\<bar> \<le> 2 powi (9 - 53)" by (rule rd64_err) simp
  then have e: "\<bar>rd64 q - q\<bar> \<le> 1/17592186044416" by (simp add: power_int_minus)
  then have b: "\<bar>rd64 q\<bar> < 1025" using assms by linarith
  have "(1025::rat) < 2 ^ 1024" by simp
  then have "rd64 q < 2 ^ 1024" and "- (2 ^ 1024) < rd64 q" using b by linarith+
  then show ?thesis using e by (simp add: F64_def Let_def)
qed

lemma age_contribution_near:
  assumes "0 \<le> a" and "a \<le> 120"
  shows "\<exists>r. age_contribution a = Fin r \<and> \<bar>r - exact_age a\<bar> \<le> 2/17592186044416 \<and>
             0 \<le> exact_age a \<and> exact_age a \<le> 20"
proof -
  consider "a < 5" | "65 < a" | "5 \<le> a \<and> a \<le> 65" by linarith
  then show ?thesis
  proof cases
    case 1
    then show ?thesis by (simp add: age_contribution_def exact_age_def)
  next
    case 2
    then show ?thesis by (simp add: age_contribution_def exact_age_def)
  next
    case 3
    let ?c = "5404319552844595 / 18014398509481984 :: rat"
    let ?q = "of_int a * ?c"
    have b: "(5::rat) \<le> of_int a" "(of_int a :: rat) \<le> 65" using 3 by simp_all
    have "\<bar>?q\<bar> < 1024" using b by linarith
    then have "F64 ?q = Fin (rd64 ?q) \<and> \<bar>rd64 ?q - ?q\<bar> \<le> 1/17592186044416"
      by (rule F64_err)
    then have f: "F64 ?q = Fin (rd64 ?q)" and e: "\<bar>rd64 ?q - ?q\<bar> \<le> 1/17592186044416"
      by blast+
    have "age_contribution a = js_mul (Fin (of_int a)) (Fin ?c)"
      using 3 unfolding age_contribution_def lit_0_3 by simp
    then have ac: "age_contribution a = Fin (rd64 ?q)" unfolding js_mul.simps f .
    have ex: "exact_age a = of_int a * (3/10)" using 3 by (simp add: exact_age_def)
    have "\<bar>rd64 ?q - exact_age a\<bar> \<le> 2/17592186044416" unfolding ex using e b by linarith
    moreover have "0 \<le> exact_age a" and "exact_age a \<le> 20" unfolding ex using b by linarith+
    ultimately show ?thesis using ac by blast
  qed
qed

lemma haemoglobin_contribution_near:
  assumes "20 \<le> hb" and "hb \<le> 180"
  shows "\<exists>r. haemoglobin_contribution hb = Fin r \<and>
             \<bar>r - exact_haemoglobin hb\<bar> \<le> 3/17592186044416 \<and>
             0 \<le> exact_haemoglobin hb \<and> exact_haemoglobin hb \<le> 26"
proof -
  let ?c = "3602879701896397 / 18014398509481984 :: rat"
  define d where "d = rd64 (150 - hb)"
  have "\<bar>150 - hb\<bar> < 1024" using assms by linarith
  then have "F64 (150 - hb) = Fin (rd64 (150 - hb)) \<and>
             \<bar>rd64 (150 - hb) - (150 - hb)\<bar> \<le> 1/17592186044416" by (rule F64_err)
  then have d: "F64 (150 - hb) = Fin d" and de: "\<bar>d - (150 - hb)\<bar> \<le> 1/17592186044416"
    unfolding d_def by blast+
  define m where "m = rd64 (d * ?c)"
  have "\<bar>d * ?c\<bar> < 1024" using de assms by linarith
  then have "F64 (d * ?c) = Fin (rd64 (d * ?c)) \<and>
             \<bar>rd64 (d * ?c) - d * ?c\<bar> \<le> 1/17592186044416" by (rule F64_err)
  then have m: "F64 (d * ?c) = Fin m" and me: "\<bar>m - d * ?c\<bar> \<le> 1/17592186044416"
    unfolding m_def by blast+
  have "haemoglobin_contribution hb = Math_max (Fin 0) (Fin m)"
    unfolding haemoglobin_contribution_def lit_0_2 js_sub_Fin d js_mul.simps m ..
  then have hc: "haemoglobin_contribution hb = Fin (max 0 m)" by (simp add: Math_max_def max_def)
  have ex: "exact_haemoglobin hb = max 0 ((150 - hb) * (2/10))" by (simp add: exact_haemoglobin_def)
  define y where "y = 150 - hb"
  have yb: "- 30 \<le> y" "y \<le> 130" using assms by (simp_all add: y_def)
  have "\<bar>d - y\<bar> \<le> 1/17592186044416" using de by (simp add: y_def)
  then have "\<bar>d * ?c - y * (2/10)\<bar> \<le> 1/17592186044416" using yb by linarith
  then have "\<bar>m - y * (2/10)\<bar> \<le> 2/17592186044416" using me by linarith
  then have "\<bar>max 0 m - max 0 (y * (2/10))\<bar> \<le> 3/17592186044416" by linarith
  moreover have "0 \<le> max 0 (y * (2/10))" and "max 0 (y * (2/10)) \<le> 26"
    using yb by linarith+
  ultimately have "\<bar>max 0 m - exact_haemoglobin hb\<bar> \<le> 3/17592186044416"
    and "0 \<le> exact_haemoglobin hb" and "exact_haemoglobin hb \<le> 26"
    unfolding ex y_def by blast+
  then show ?thesis using hc by blast
qed

lemma parasite_contribution_small:
  assumes "n \<le> 21"
  shows "parasite_contribution (Some n) = Fin (exact_parasite (Some n)) \<and>
         0 \<le> exact_parasite (Some n) \<and> exact_parasite (Some n) \<le> 105"
proof -
  have "\<bar>int n\<bar> \<le> 2 ^ 53" using assms by simp
  then have "F64 (of_int (int n)) = Fin (of_int (int n))" by (rule F64_int)
  then have 1: "F64 (of_nat n) = Fin (of_nat n)" by simp
  have "\<bar>int n * 5\<bar> \<le> 2 ^ 53" using assms by simp
  then have "F64 (of_int (int n * 5)) = Fin (of_int (int n * 5))" by (rule F64_int)
  then have 2: "F64 (of_nat n * 5) = Fin (of_nat n * 5)" by simp
  have "(of_nat n :: rat) \<le> 21" using assms by simp
  then show ?thesis by (simp add: parasite_contribution_def exact_parasite_def 1 2)
qed

lemma typed_total_near:
  assumes a: "0 \<le> a" "a \<le> 120" and h: "20 \<le> hb" "hb \<le> 180"
    and p: "p = None \<or> (\<exists>n. p = Some n \<and> n \<le> 21)"
  shows "\<exists>r. typed_total a yes hb p = Fin r \<and>
             \<bar>r - exact_total a yes hb p\<bar> \<le> 9/17592186044416"
proof -
  obtain rA where A: "age_contribution a = Fin rA"
    and Ae: "\<bar>rA - exact_age a\<bar> \<le> 2/17592186044416"
    and Ab: "0 \<le> exact_age a" "exact_age a \<le> 20"
    using age_contribution_near[OF a] by blast
  have Y: "anaemia_contribution yes = Fin (exact_anaemia yes)"
    and Yb: "0 \<le> exact_anaemia yes" "exact_anaemia yes \<le> 25"
    by (simp_all add: anaemia_contribution_def exact_anaemia_def)
  obtain rH where H: "haemoglobin_contribution hb = Fin rH"
    and He: "\<bar>rH - exact_haemoglobin hb\<bar> \<le> 3/17592186044416"
    and Hb: "0 \<le> exact_haemoglobin hb" "exact_haemoglobin hb \<le> 26"
    using haemoglobin_contribution_near[OF h] by blast
  have P: "parasite_contribution p = Fin (exact_parasite p)"
    and Pb: "0 \<le> exact_parasite p" "exact_parasite p \<le> 105"
    using p parasite_contribution_small
    by (auto simp: parasite_contribution_def exact_parasite_def)
  define s1 where "s1 = rd64 (0 + rA)"
  have "\<bar>0 + rA\<bar> < 1024" using Ae Ab by linarith
  then have "F64 (0 + rA) = Fin (rd64 (0 + rA)) \<and>
             \<bar>rd64 (0 + rA) - (0 + rA)\<bar> \<le> 1/17592186044416" by (rule F64_err)
  then have s1: "F64 (0 + rA) = Fin s1" and e1: "\<bar>s1 - (0 + rA)\<bar> \<le> 1/17592186044416"
    unfolding s1_def by blast+
  define s2 where "s2 = rd64 (s1 + exact_anaemia yes)"
  have "\<bar>s1 + exact_anaemia yes\<bar> < 1024" using e1 Ae Ab Yb by linarith
  then have "F64 (s1 + exact_anaemia yes) = Fin (rd64 (s1 + exact_anaemia yes)) \<and>
             \<bar>rd64 (s1 + exact_anaemia yes) - (s1 + exact_anaemia yes)\<bar> \<le> 1/17592186044416"
    by (rule F64_err)
  then have s2: "F64 (s1 + exact_anaemia yes) = Fin s2"
    and e2: "\<bar>s2 - (s1 + exact_anaemia yes)\<bar> \<le> 1/17592186044416"
    unfolding s2_def by blast+
  define s3 where "s3 = rd64 (s2 + rH)"
  have "\<bar>s2 + rH\<bar> < 1024" using e2 e1 Ae Ab Yb He Hb by linarith
  then have "F64 (s2 + rH) = Fin (rd64 (s2 + rH)) \<and>
             \<bar>rd64 (s2 + rH) - (s2 + rH)\<bar> \<le> 1/17592186044416" by (rule F64_err)
  then have s3: "F64 (s2 + rH) = Fin s3" and e3: "\<bar>s3 - (s2 + rH)\<bar> \<le> 1/17592186044416"
    unfolding s3_def by blast+
  define s4 where "s4 = rd64 (s3 + exact_parasite p)"
  have "\<bar>s3 + exact_parasite p\<bar> < 1024" using e3 e2 e1 Ae Ab Yb He Hb Pb by linarith
  then have "F64 (s3 + exact_parasite p) = Fin (rd64 (s3 + exact_parasite p)) \<and>
             \<bar>rd64 (s3 + exact_parasite p) - (s3 + exact_parasite p)\<bar> \<le> 1/17592186044416"
    by (rule F64_err)
  then have s4: "F64 (s3 + exact_parasite p) = Fin s4"
    and e4: "\<bar>s4 - (s3 + exact_parasite p)\<bar> \<le> 1/17592186044416"
    unfolding s4_def by blast+
  have "typed_total a yes hb p = Fin s4"
    unfolding typed_total_def A Y H P js_add.simps s1 s2 s3 s4 ..
  moreover have "\<bar>s4 - exact_total a yes hb p\<bar> \<le> 9/17592186044416"
    unfolding exact_total_def using e4 e3 e2 e1 Ae He by linarith
  ultimately show ?thesis by blast
qed

lemma clamped_near:
  assumes a: "0 \<le> a" "a \<le> 120" and h: "20 \<le> hb" "hb \<le> 180"
    and p: "p = None \<or> (\<exists>n. p = Some n \<and> n \<le> 21)"
  shows "\<exists>c. clamp_0_100 (typed_total a yes hb p) = Fin c \<and> 0 \<le> c \<and> c \<le> 100 \<and>
             \<bar>c - exact_clamped a yes hb p\<bar> \<le> 9/17592186044416"
proof -
  obtain r where r: "typed_total a yes hb p = Fin r"
    and e: "\<bar>r - exact_total a yes hb p\<bar> \<le> 9/17592186044416"
    using typed_total_near[OF a h p] by blast
  have "nonneg (Fin r)" unfolding r[symmetric] by (rule typed_total_nonneg)
  then have r0: "0 \<le> r" by (simp add: nonneg_Fin)
  then have c: "clamp_0_100 (typed_total a yes hb p) = Fin (min 100 r)"
    unfolding r by (rule clamp_Fin)
  have "\<bar>min 100 r - min 100 (max 0 (exact_total a yes hb p))\<bar> \<le> 9/17592186044416"
    using e r0 by linarith
  then have "\<bar>min 100 r - exact_clamped a yes hb p\<bar> \<le> 9/17592186044416"
    by (simp only: exact_clamped_def)
  moreover have "0 \<le> min 100 r" and "min 100 r \<le> 100" using r0 by simp_all
  ultimately show ?thesis using c by blast
qed

lemma exact_age_nonneg: "0 \<le> a \<Longrightarrow> 0 \<le> exact_age a"
  by (simp add: exact_age_def)

lemma exact_total_large:
  assumes "0 \<le> a"
  shows "of_nat n * 5 \<le> exact_total a yes hb (Some n)"
proof -
  have "0 \<le> exact_age a" using assms by (rule exact_age_nonneg)
  moreover have "0 \<le> exact_anaemia yes" by (simp add: exact_anaemia_def)
  moreover have "0 \<le> exact_haemoglobin hb" by (simp add: exact_haemoglobin_def)
  ultimately show ?thesis by (simp add: exact_total_def exact_parasite_def)
qed

lemma exact_clamped_large:
  assumes "0 \<le> a" and "21 \<le> n"
  shows "exact_clamped a yes hb (Some n) = 100"
proof -
  have "(21::rat) \<le> of_nat n" using assms(2) by simp
  then have "100 \<le> exact_total a yes hb (Some n)"
    using exact_total_large[OF assms(1), of n yes hb] by linarith
  then show ?thesis by (simp add: exact_clamped_def)
qed

lemma clamped_large:
  assumes a: "0 \<le> a" "a \<le> 120" and h: "20 \<le> hb" "hb \<le> 180" and n: "21 \<le> n"
  shows "clamp_0_100 (typed_total a yes hb (Some n)) = Fin 100"
proof -
  obtain r where r: "typed_total a yes hb (Some 21) = Fin r"
    and e: "\<bar>r - exact_total a yes hb (Some 21)\<bar> \<le> 9/17592186044416"
    using typed_total_near[OF a h, of "Some 21" yes] by auto
  have "of_nat 21 * 5 \<le> exact_total a yes hb (Some 21)" using a(1) by (rule exact_total_large)
  then have "105 \<le> exact_total a yes hb (Some 21)" by simp
  then have r100: "100 \<le> r" using e by linarith
  have le: "js_le (typed_total a yes hb (Some 21)) (typed_total a yes hb (Some n))"
    using n by (rule typed_total_mono_parasite)
  have "nonneg (typed_total a yes hb (Some 21))" and "nonneg (typed_total a yes hb (Some n))"
    by (rule typed_total_nonneg)+
  then show ?thesis using le
  proof (cases rule: nonneg_le_cases)
    case inf
    then show ?thesis by (simp add: clamp_PosInf)
  next
    case (fin x y)
    then have "100 \<le> y" using r r100 by simp
    then show ?thesis using fin by (simp add: clamp_Fin)
  qed
qed

lemma round_of_clamped:
  assumes "0 \<le> c" and "c \<le> 100"
  shows "\<exists>t. round_one_decimal (Fin c) = F64 (of_int \<lfloor>t + 1/2\<rfloor> / 10) \<and>
             \<bar>t - c * 10\<bar> \<le> 1/17592186044416"
proof -
  have "\<bar>c * 10\<bar> < 1024" using assms by linarith
  then have "F64 (c * 10) = Fin (rd64 (c * 10)) \<and>
             \<bar>rd64 (c * 10) - c * 10\<bar> \<le> 1/17592186044416" by (rule F64_err)
  then have f: "F64 (c * 10) = Fin (rd64 (c * 10))"
    and e: "\<bar>rd64 (c * 10) - c * 10\<bar> \<le> 1/17592186044416" by blast+
  have "round_one_decimal (Fin c) = F64 (of_int \<lfloor>rd64 (c * 10) + 1/2\<rfloor> / 10)"
    unfolding round_one_decimal_def js_mul.simps f by simp
  then show ?thesis using e by blast
qed

lemma floor_neighbours:
  fixes t x :: rat
  assumes "\<bar>t - x\<bar> \<le> 91/17592186044416"
  shows "\<lfloor>t + 1/2\<rfloor> = \<lfloor>x + 1/2\<rfloor> \<or>
         (\<lfloor>t + 1/2\<rfloor> = \<lfloor>x + 1/2\<rfloor> - 1 \<and> frac (x + 1/2) < 1/1000000000) \<or>
         (\<lfloor>t + 1/2\<rfloor> = \<lfloor>x + 1/2\<rfloor> + 1 \<and> 1 - 1/1000000000 < frac (x + 1/2))"
proof -
  define k where "k = \<lfloor>t + 1/2\<rfloor>"
  define j where "j = \<lfloor>x + 1/2\<rfloor>"
  have k: "of_int k \<le> t + 1/2" "t + 1/2 < of_int k + 1" unfolding k_def by linarith+
  have j: "of_int j \<le> x + 1/2" "x + 1/2 < of_int j + 1" unfolding j_def by linarith+
  have f: "frac (x + 1/2) = x + 1/2 - of_int j" by (simp add: frac_def j_def)
  have "(of_int k :: rat) < of_int j + 2" using k j assms by linarith
  then have "(of_int k :: rat) < of_int (j + 2)" by simp
  then have 1: "k < j + 2" by (simp only: of_int_less_iff)
  have "(of_int j :: rat) < of_int k + 2" using k j assms by linarith
  then have "(of_int j :: rat) < of_int (k + 2)" by simp
  then have 2: "j < k + 2" by (simp only: of_int_less_iff)
  consider "k = j" | "k = j - 1" | "k = j + 1" using 1 2 by linarith
  then have "k = j \<or> (k = j - 1 \<and> frac (x + 1/2) < 1/1000000000) \<or>
             (k = j + 1 \<and> 1 - 1/1000000000 < frac (x + 1/2))"
  proof cases
    case 1
    then show ?thesis by simp
  next
    case 2
    then have "(of_int k :: rat) = of_int j - 1" by simp
    then have "frac (x + 1/2) < 1/1000000000" unfolding f using k assms by linarith
    then show ?thesis using 2 by simp
  next
    case 3
    then have "(of_int k :: rat) = of_int j + 1" by simp
    then have "1 - 1/1000000000 < frac (x + 1/2)" unfolding f using k assms by linarith
    then show ?thesis using 3 by simp
  qed
  then show ?thesis unfolding k_def j_def .
qed

lemma typed_score_formula:
  assumes a: "0 \<le> a" "a \<le> 120" and h: "20 \<le> hb" "hb \<le> 180"
  shows "typed_score a yes hb p = F64 (exact_score a yes hb p) \<or>
         (typed_score a yes hb p = F64 (exact_score a yes hb p - 1/10) \<and>
          frac (exact_clamped a yes hb p * 10 + 1/2) < 1/1000000000) \<or>
         (typed_score a yes hb p = F64 (exact_score a yes hb p + 1/10) \<and>
          1 - 1/1000000000 < frac (exact_clamped a yes hb p * 10 + 1/2))"
proof (cases "p = None \<or> (\<exists>n. p = Some n \<and> n \<le> 21)")
  case True
  let ?E = "exact_clamped a yes hb p"
  obtain c where c: "clamp_0_100 (typed_total a yes hb p) = Fin c"
    and cb: "0 \<le> c" "c \<le> 100" and ce: "\<bar>c - ?E\<bar> \<le> 9/17592186044416"
    using clamped_near[OF a h True] by blast
  obtain t where t: "round_one_decimal (Fin c) = F64 (of_int \<lfloor>t + 1/2\<rfloor> / 10)"
    and te: "\<bar>t - c * 10\<bar> \<le> 1/17592186044416"
    using round_of_clamped[OF cb] by blast
  have "\<bar>t - ?E * 10\<bar> \<le> 91/17592186044416" using ce te by linarith
  then have n: "\<lfloor>t + 1/2\<rfloor> = \<lfloor>?E * 10 + 1/2\<rfloor> \<or>
         (\<lfloor>t + 1/2\<rfloor> = \<lfloor>?E * 10 + 1/2\<rfloor> - 1 \<and> frac (?E * 10 + 1/2) < 1/1000000000) \<or>
         (\<lfloor>t + 1/2\<rfloor> = \<lfloor>?E * 10 + 1/2\<rfloor> + 1 \<and> 1 - 1/1000000000 < frac (?E * 10 + 1/2))"
    by (rule floor_neighbours)
  have s: "typed_score a yes hb p = F64 (of_int \<lfloor>t + 1/2\<rfloor> / 10)"
    by (simp only: typed_score_def c t)
  have x0: "exact_score a yes hb p = of_int \<lfloor>?E * 10 + 1/2\<rfloor> / 10"
    by (simp only: exact_score_def)
  have x1: "exact_score a yes hb p - 1/10 = of_int (\<lfloor>?E * 10 + 1/2\<rfloor> - 1) / 10"
    unfolding x0 by (simp add: diff_divide_distrib)
  have x2: "exact_score a yes hb p + 1/10 = of_int (\<lfloor>?E * 10 + 1/2\<rfloor> + 1) / 10"
    unfolding x0 by (simp add: add_divide_distrib)
  show ?thesis unfolding s x0[symmetric] x1 x2 unfolding x0 using n by metis
next
  case False
  then obtain n where p: "p = Some n" and n: "21 \<le> n" by (cases p) auto
  have c: "clamp_0_100 (typed_total a yes hb p) = Fin 100"
    unfolding p using a h n by (rule clamped_large)
  have "round_one_decimal (clamp_0_100 (Fin (of_int 100))) = Fin (of_int 100)"
    by (rule round_clamp_int) simp_all
  then have r: "round_one_decimal (Fin 100) = Fin 100" by (simp add: clamp_Fin)
  have "exact_clamped a yes hb p = 100" unfolding p using a(1) n by (rule exact_clamped_large)
  then have "exact_score a yes hb p = 100" by (simp add: exact_score_def floor_rat_numeral)
  then have "typed_score a yes hb p = F64 (exact_score a yes hb p)"
    by (simp add: typed_score_def c r F64_100)
  then show ?thesis by blast
qed

text \<open>
  The program's steps for age 18, anaemia, haemoglobin 127.25 and a count of 3, where the
  exact sum is 49.95.
\<close>

lemma mul_18_lit_0_3:
  "F64 (48638875975601355 / 9007199254740992) = Fin (6079859496950169 / 1125899906842624)"
  using F64_eqI[of 2 "48638875975601355 / 9007199254740992" 6079859496950169] by simp

lemma age_contribution_18: "age_contribution 18 = Fin (6079859496950169 / 1125899906842624)"
  unfolding age_contribution_def lit_0_3 by (simp add: mul_18_lit_0_3)

lemma add_25_boundary:
  "F64 (34227357168015769 / 1125899906842624) = Fin (4278419646001971 / 140737488355328)"
  using F64_eqI[of 4 "34227357168015769 / 1125899906842624" 8556839292003942] by simp

lemma StringToNumber_127_25: "StringToNumber ''127.25'' = Fin (509 / 4)"
  using F64_dyadic[of 509 "- 2"] by (simp add: parse_defs)

lemma parseFloat_127_25: "parseFloat ''127.25'' = Fin (509 / 4)"
  using F64_dyadic[of 509 "- 2"] by (simp add: parse_defs)

lemma sub_150_127_25: "F64 (91 / 4) = Fin (91 / 4)"
  using F64_dyadic[of 91 "- 2"] by simp

lemma mul_22_75_lit_0_2:
  "F64 (327862052872572127 / 72057594037927936) = Fin (5122844576133939 / 1125899906842624)"
  using F64_eqI[of 2 "327862052872572127 / 72057594037927936" 5122844576133939] by simp

lemma haemoglobin_contribution_127_25:
  "haemoglobin_contribution (509 / 4) = Fin (5122844576133939 / 1125899906842624)"
  unfolding haemoglobin_contribution_def lit_0_2 js_sub_Fin
  by (simp add: sub_150_127_25 mul_22_75_lit_0_2 Math_max_def)

lemma add_hb_boundary:
  "F64 (39350201744149707 / 1125899906842624) = Fin (4918775218018713 / 140737488355328)"
  using F64_eqI[of 5 "39350201744149707 / 1125899906842624" 4918775218018713] by simp

lemma add_15_boundary:
  "F64 (7029837543348633 / 140737488355328) = Fin (7029837543348633 / 140737488355328)"
  using F64_eqI[of 5 "7029837543348633 / 140737488355328" 7029837543348633] by simp

lemma times10_boundary:
  "F64 (35149187716743165 / 70368744177664) = Fin (8787296929185791 / 17592186044416)"
  using F64_eqI[of 8 "35149187716743165 / 70368744177664" 8787296929185791] by simp

lemma F64_49_9: "F64 (499 / 10) = Fin (7022800668930867 / 140737488355328)"
  using F64_eqI[of 5 "499 / 10" 7022800668930867] by simp

lemma count_of_3: "count_of (Some ''3'') (Some 3)"
  by (simp add: count_of_def is_digit_def digits_val_def digit_radix_def)

lemma typed_total_boundary:
  "typed_total 18 True (509 / 4) (Some 3) = Fin (7029837543348633 / 140737488355328)"
  unfolding typed_total_def age_contribution_18 haemoglobin_contribution_127_25
  by (simp add: anaemia_contribution_def parasite_contribution_def F64_numeral
        F64_idem[OF mul_18_lit_0_3] add_25_boundary add_hb_boundary add_15_boundary)

lemma calculateRisk_boundary:
  "calculateRisk patient_boundary = Fin (7022800668930867 / 140737488355328)"
proof -
  have "calculateRisk patient_boundary = typed_score 18 True (509 / 4) (Some 3)"
    using calculateRisk_typed[of patient_boundary 18 "''127.25''" "509 / 4" "Some 3"]
    by (simp add: patient_boundary_def StringToNumber_127_25 count_of_3)
  also have "\<dots> = F64 (499 / 10)"
    unfolding typed_score_def typed_total_boundary
    by (simp add: clamp_Fin round_one_decimal_def times10_boundary floor_rat_numeral)
  finally show ?thesis by (simp only: F64_49_9)
qed

lemma parse_2006_01_01:
  "parse_date_only ''2006-01-01'' = Some \<lparr>fullYear = 2006, month = 0, dayOfMonth = 1\<rparr>"
  by (simp add: parse_date_only_def is_digit_def digits_val_def digit_radix_def
        days_in_month_def leap_year_def Let_def)

lemma calculateAge_utc_2006: "calculateAge utc_host ''2006-01-01'' = Fin 18"
proof -
  have n: "newDate utc_host ''2006-01-01'' = Some \<lparr>fullYear = 2006, month = 0, dayOfMonth = 1\<rparr>"
    by (simp add: utc_host_def zoned_host_def parse_2006_01_01)
  have v: "valid_date \<lparr>fullYear = 2006, month = 0, dayOfMonth = 1\<rparr>"
    by (simp add: valid_date_def days_in_month_def)
  show ?thesis
    using calculateAge_years[of utc_host "''2006-01-01''", OF _ n v]
    by (simp add: utc_today valid_2024_06_15 age_spec_def)
qed

lemma validateForm_boundary: "validateForm utc_host patient_boundary = []"
  by (simp add: validateForm_fields dob_errors_def anaemia_errors_def haemoglobin_errors_def
        parasite_errors_def patient_boundary_def falsy_def ToString_str_def
        calculateAge_utc_2006 parseFloat_127_25 js_gt_def)

lemma exact_total_boundary: "exact_total 18 True (509 / 4) (Some 3) = 999 / 20"
  by (simp add: exact_total_def exact_age_def exact_anaemia_def exact_haemoglobin_def
        exact_parasite_def)

lemma exact_clamped_boundary: "exact_clamped 18 True (509 / 4) (Some 3) = 999 / 20"
  by (simp add: exact_clamped_def exact_total_boundary)

lemma exact_score_boundary: "exact_score 18 True (509 / 4) (Some 3) = 50"
  by (simp add: exact_score_def exact_clamped_boundary)

lemma exact_score_even_boundary: "exact_score_even 18 True (509 / 4) (Some 3) = 50"
  using rne_tie[of 499] by (simp add: exact_score_even_def exact_clamped_boundary)

lemma exact_edges:
  "exact_age 5 = 3/2 \<and> exact_age 65 = 39/2 \<and> exact_haemoglobin 150 = 0 \<and>
   exact_score 5 False 150 None = 3/2 \<and> exact_score 65 False 150 None = 39/2"
  by (simp add: exact_age_def exact_haemoglobin_def exact_score_def exact_clamped_def
        exact_total_def exact_anaemia_def exact_parasite_def floor_rat_numeral)

section \<open>Properties of the score\<close>

text \<open>
  C1. For a validated input (an integer age from 0 to 120, anaemia yes or no, a
  haemoglobin text whose number lies in \<open>[20, 180]\<close>, a parasite count that is a
  decimal count or the sentinel), \<open>calculateRisk\<close> returns the binary64 number nearest to
  the specification's score, which is the exact sum of the four contributions clamped to
  \<open>[0, 100]\<close> and rounded to one decimal, a tie upwards, unless ten times the clamped
  exact sum lies within \<open>1/10^9\<close> of the midpoint between two integers. There the
  program, which rounds after every operation, may return the neighbouring tenth: the
  tenth below when the sum is at the midpoint or just above it, the tenth above when it is
  just below. Ages 5 and 65 take the linear branch (with haemoglobin 150 and nothing else
  they score 1.5 and 19.5, in exact arithmetic and in the program), and haemoglobin 150
  contributes 0.
\<close>

theorem calculateRisk_exact_formula:
  assumes "age data = Some (Fin (of_int a))" and "0 \<le> a" and "a \<le> 120"
    and "anaemia data = Some (if yes then ''yes'' else ''no'')"
    and "haemoglobin data = Some hs" and "StringToNumber hs = Fin hb"
    and "20 \<le> hb" and "hb \<le> 180"
    and "count_of (parasiteCount data) p"
  shows "(calculateRisk data = F64 (exact_score a yes hb p) \<or>
          (calculateRisk data = F64 (exact_score a yes hb p - 1/10) \<and>
           frac (exact_clamped a yes hb p * 10 + 1/2) < 1/1000000000) \<or>
          (calculateRisk data = F64 (exact_score a yes hb p + 1/10) \<and>
           1 - 1/1000000000 < frac (exact_clamped a yes hb p * 10 + 1/2))) \<and>
         exact_age 5 = 3/2 \<and> exact_age 65 = 39/2 \<and> exact_haemoglobin 150 = 0 \<and>
         exact_score 5 False 150 None = 3/2 \<and> calculateRisk patient_age5 = Fin (3/2) \<and>
         exact_score 65 False 150 None = 39/2 \<and> calculateRisk patient_age65 = Fin (39/2)"
proof -
  have "calculateRisk data = typed_score a (anaemia data = Some ''yes'') hb p"
    using assms(1,5,6,9) by (rule calculateRisk_typed)
  moreover have "(anaemia data = Some ''yes'') = yes" using assms(4) by (cases yes) simp_all
  ultimately have c: "calculateRisk data = typed_score a yes hb p" by simp
  have "typed_score a yes hb p = F64 (exact_score a yes hb p) \<or>
         (typed_score a yes hb p = F64 (exact_score a yes hb p - 1/10) \<and>
          frac (exact_clamped a yes hb p * 10 + 1/2) < 1/1000000000) \<or>
         (typed_score a yes hb p = F64 (exact_score a yes hb p + 1/10) \<and>
          1 - 1/1000000000 < frac (exact_clamped a yes hb p * 10 + 1/2))"
    using assms(2,3,7,8) by (rule typed_score_formula)
  then show ?thesis
    unfolding c by (simp only: exact_edges calculateRisk_age5 calculateRisk_age65 simp_thms)
qed

theorem calculateRisk_exact_formula_witness:
  "age patient_ex2 = Some (Fin (of_int 3)) \<and> (0::int) \<le> 3 \<and> (3::int) \<le> 120 \<and>
   anaemia patient_ex2 = Some ''yes'' \<and>
   haemoglobin patient_ex2 = Some ''100'' \<and> StringToNumber ''100'' = Fin 100 \<and>
   (20::rat) \<le> 100 \<and> (100::rat) \<le> 180 \<and>
   count_of (parasiteCount patient_ex2) (Some 4) \<and>
   exact_clamped 3 True 100 (Some 4) = 75 \<and>
   frac (75 * 10 + 1/2 :: rat) = 1/2 \<and>
   exact_score 3 True 100 (Some 4) = 75 \<and>
   calculateRisk patient_ex2 = F64 (exact_score 3 True 100 (Some 4))"
proof -
  have e: "exact_clamped 3 True 100 (Some 4) = 75"
    by (simp add: exact_clamped_def exact_total_def exact_age_def exact_anaemia_def
          exact_haemoglobin_def exact_parasite_def)
  have f: "frac (75 * 10 + 1/2 :: rat) = 1/2" by (simp add: frac_def floor_rat_numeral)
  have s: "exact_score 3 True 100 (Some 4) = 75"
    by (simp add: exact_score_def e floor_rat_numeral)
  have "calculateRisk patient_ex2 = F64 (exact_score 3 True 100 (Some 4)) \<or>
        (calculateRisk patient_ex2 = F64 (exact_score 3 True 100 (Some 4) - 1/10) \<and>
         frac (exact_clamped 3 True 100 (Some 4) * 10 + 1/2) < 1/1000000000) \<or>
        (calculateRisk patient_ex2 = F64 (exact_score 3 True 100 (Some 4) + 1/10) \<and>
         1 - 1/1000000000 < frac (exact_clamped 3 True 100 (Some 4) * 10 + 1/2))"
    using calculateRisk_exact_formula[of patient_ex2 3 True "''100''" 100 "Some 4"]
    by (simp add: patient_ex2_def StringToNumber_100 count_of_4)
  then have "calculateRisk patient_ex2 = F64 (exact_score 3 True 100 (Some 4))"
    unfolding e f by simp
  then show ?thesis
    using e f s by (simp add: patient_ex2_def StringToNumber_100 count_of_4)
qed

text \<open>
  Without the exception the formula fails. Age 18 with anaemia, haemoglobin 127.25 and a
  count of 3 passes the validator; the exact sum is 5.4 + 25 + 4.55 + 15 = 49.95, which
  rounds to 50.0 under either tie rule, and the program returns the number for 49.9: its
  accumulator is just below 49.95 after four roundings. The tier changes with it, from
  high to moderate.
\<close>

theorem calculateRisk_not_exact_at_49_95:
  "validateForm utc_host patient_boundary = [] \<and>
   age patient_boundary = Some (Fin 18) \<and>
   anaemia patient_boundary = Some ''yes'' \<and>
   haemoglobin patient_boundary = Some ''127.25'' \<and>
   StringToNumber ''127.25'' = Fin (509 / 4) \<and>
   count_of (parasiteCount patient_boundary) (Some 3) \<and>
   exact_total 18 True (509 / 4) (Some 3) = 999 / 20 \<and>
   exact_score 18 True (509 / 4) (Some 3) = 50 \<and>
   exact_score_even 18 True (509 / 4) (Some 3) = 50 \<and>
   F64 50 = Fin 50 \<and>
   F64 (499 / 10) = Fin (7022800668930867 / 140737488355328) \<and>
   calculateRisk patient_boundary = Fin (7022800668930867 / 140737488355328) \<and>
   riskClass (getRiskInterpretation (calculateRisk patient_boundary)) = ''medium-risk'' \<and>
   riskClass (getRiskInterpretation (Fin 50)) = ''high-risk''"
proof -
  have "count_of (parasiteCount patient_boundary) (Some 3)"
    by (simp add: patient_boundary_def count_of_3)
  moreover have "F64 50 = Fin 50" by (simp add: F64_numeral)
  moreover have "riskClass (getRiskInterpretation (calculateRisk patient_boundary)) =
                   ''medium-risk''"
    by (simp add: calculateRisk_boundary getRiskInterpretation_def)
  moreover have "riskClass (getRiskInterpretation (Fin 50)) = ''high-risk''"
    by (simp add: getRiskInterpretation_def)
  moreover have "age patient_boundary = Some (Fin 18)"
    and "anaemia patient_boundary = Some ''yes''"
    and "haemoglobin patient_boundary = Some ''127.25''"
    by (simp_all add: patient_boundary_def)
  ultimately show ?thesis
    by (simp only: validateForm_boundary StringToNumber_127_25 exact_total_boundary
          exact_score_boundary exact_score_even_boundary F64_49_9 calculateRisk_boundary
          simp_thms)
qed

lemma clamp_any:
  assumes "x \<noteq> NaN"
  shows "\<exists>r. clamp_0_100 x = Fin r \<and> 0 \<le> r \<and> r \<le> 100"
  using assms by (cases x) (auto simp: clamp_0_100_def Math_max_def Math_min_def)

lemma round_clamp_range:
  assumes "x \<noteq> NaN"
  shows "\<exists>s. round_one_decimal (clamp_0_100 x) = Fin s \<and> 0 \<le> s \<and> s \<le> 100"
proof -
  obtain r where "clamp_0_100 x = Fin r" "0 \<le> r" "r \<le> 100" using clamp_any[OF assms] by auto
  then show ?thesis using round_range[of r] by simp
qed

text \<open>
  C5. For an age from 0 to 120 and the other fields in their validated domains, the
  result of \<open>calculateRisk\<close> is a finite number in \<open>[0, 100]\<close>: whatever total
  the sum reaches, a large one, a negative one or an infinite one, the clamp brings it
  into \<open>[0, 100]\<close> and the rounding keeps it there.
\<close>

theorem calculateRisk_range:
  assumes "age data = Some (Fin (of_int a))" and "0 \<le> a" and "a \<le> 120"
    and "anaemia data = Some ''yes'' \<or> anaemia data = Some ''no''"
    and "haemoglobin data = Some hs" and "StringToNumber hs = Fin hb"
    and "20 \<le> hb" and "hb \<le> 180"
    and "count_of (parasiteCount data) p"
  shows "(\<exists>s. calculateRisk data = Fin s \<and> 0 \<le> s \<and> s \<le> 100) \<and>
         (x \<noteq> NaN \<longrightarrow>
            (\<exists>s. round_one_decimal (clamp_0_100 x) = Fin s \<and> 0 \<le> s \<and> s \<le> 100))"
proof -
  have "risk_total data = typed_total a (anaemia data = Some ''yes'') hb p"
    using assms(1,5,6,9) by (rule risk_total_typed)
  then have "nonneg (risk_total data)" by (simp add: typed_total_nonneg)
  then have "\<exists>s. calculateRisk data = Fin s \<and> 0 \<le> s \<and> s \<le> 100" by (rule score_range)
  then show ?thesis using round_clamp_range[of x] by blast
qed

theorem calculateRisk_range_witness:
  "age patient_ex3 = Some (Fin (of_int 40)) \<and> (0::int) \<le> 40 \<and> (40::int) \<le> 120 \<and>
   anaemia patient_ex3 = Some ''no'' \<and>
   haemoglobin patient_ex3 = Some ''160'' \<and> StringToNumber ''160'' = Fin 160 \<and>
   count_of (parasiteCount patient_ex3) (Some 0) \<and>
   (\<exists>s. calculateRisk patient_ex3 = Fin s \<and> 0 \<le> s \<and> s \<le> 100) \<and>
   PosInf \<noteq> NaN \<and>
   (\<exists>s. round_one_decimal (clamp_0_100 PosInf) = Fin s \<and> 0 \<le> s \<and> s \<le> 100)"
  using calculateRisk_range[of patient_ex3 40 "''160''" 160 "Some 0" PosInf]
  by (simp add: patient_ex3_def StringToNumber_160 count_of_0)

text \<open>
  C6. With the age, the anaemia status and the haemoglobin held fixed, the score does not
  decrease when the parasite count grows: for decimal counts \<open>p1 \<le> p2\<close> the score for
  \<open>p2\<close> is at least the score for \<open>p1\<close>.
\<close>

theorem calculateRisk_mono_parasiteCount:
  assumes "age data = Some (Fin (of_int a))" and "0 \<le> a" and "a \<le> 120"
    and "haemoglobin data = Some hs" and "StringToNumber hs = Fin hb"
    and "20 \<le> hb" and "hb \<le> 180"
    and "count_of (Some s1) (Some p1)" and "count_of (Some s2) (Some p2)" and "p1 \<le> p2"
  shows "js_le (calculateRisk (data\<lparr>parasiteCount := Some s1\<rparr>))
               (calculateRisk (data\<lparr>parasiteCount := Some s2\<rparr>))"
proof -
  let ?y = "anaemia data = Some ''yes''"
  have t1: "risk_total (data\<lparr>parasiteCount := Some s1\<rparr>) = typed_total a ?y hb (Some p1)"
    using risk_total_typed[of "data\<lparr>parasiteCount := Some s1\<rparr>" a hs hb "Some p1"] assms
    by simp
  have t2: "risk_total (data\<lparr>parasiteCount := Some s2\<rparr>) = typed_total a ?y hb (Some p2)"
    using risk_total_typed[of "data\<lparr>parasiteCount := Some s2\<rparr>" a hs hb "Some p2"] assms
    by simp
  show ?thesis
  proof (rule score_mono)
    show "nonneg (risk_total (data\<lparr>parasiteCount := Some s1\<rparr>))"
      unfolding t1 by (rule typed_total_nonneg)
    show "nonneg (risk_total (data\<lparr>parasiteCount := Some s2\<rparr>))"
      unfolding t2 by (rule typed_total_nonneg)
    show "js_le (risk_total (data\<lparr>parasiteCount := Some s1\<rparr>))
                (risk_total (data\<lparr>parasiteCount := Some s2\<rparr>))"
      unfolding t1 t2 using assms(10) by (rule typed_total_mono_parasite)
  qed
qed

theorem calculateRisk_mono_parasiteCount_witness:
  "age patient_ex2 = Some (Fin (of_int 3)) \<and> (0::int) \<le> 3 \<and> (3::int) \<le> 120 \<and>
   haemoglobin patient_ex2 = Some ''100'' \<and> StringToNumber ''100'' = Fin 100 \<and>
   count_of (Some ''4'') (Some 4) \<and> count_of (Some ''10'') (Some 10) \<and> (4::nat) \<le> 10 \<and>
   js_le (calculateRisk (patient_ex2\<lparr>parasiteCount := Some ''4''\<rparr>))
         (calculateRisk (patient_ex2\<lparr>parasiteCount := Some ''10''\<rparr>))"
  using calculateRisk_mono_parasiteCount[of patient_ex2 3 "''100''" 100 "''4''" 4 "''10''" 10]
  by (simp add: patient_ex2_def StringToNumber_100 count_of_4 count_of_10)

text \<open>
  C7. With the age, the anaemia status and the parasite count held fixed, the score does
  not increase when the haemoglobin grows up to 150: for validated \<open>h1 \<le> h2 \<le> 150\<close>
  the score for \<open>h2\<close> is at most the score for \<open>h1\<close>.
\<close>

theorem calculateRisk_antimono_haemoglobin:
  assumes "age data = Some (Fin (of_int a))" and "0 \<le> a" and "a \<le> 120"
    and "count_of (parasiteCount data) p"
    and "StringToNumber s1 = Fin h1" and "StringToNumber s2 = Fin h2"
    and "20 \<le> h1" and "h1 \<le> h2" and "h2 \<le> 150"
  shows "js_le (calculateRisk (data\<lparr>haemoglobin := Some s2\<rparr>))
               (calculateRisk (data\<lparr>haemoglobin := Some s1\<rparr>))"
proof -
  let ?y = "anaemia data = Some ''yes''"
  have t1: "risk_total (data\<lparr>haemoglobin := Some s1\<rparr>) = typed_total a ?y h1 p"
    using risk_total_typed[of "data\<lparr>haemoglobin := Some s1\<rparr>" a s1 h1 p] assms by simp
  have t2: "risk_total (data\<lparr>haemoglobin := Some s2\<rparr>) = typed_total a ?y h2 p"
    using risk_total_typed[of "data\<lparr>haemoglobin := Some s2\<rparr>" a s2 h2 p] assms by simp
  show ?thesis
  proof (rule score_mono)
    show "nonneg (risk_total (data\<lparr>haemoglobin := Some s2\<rparr>))"
      unfolding t2 by (rule typed_total_nonneg)
    show "nonneg (risk_total (data\<lparr>haemoglobin := Some s1\<rparr>))"
      unfolding t1 by (rule typed_total_nonneg)
    show "js_le (risk_total (data\<lparr>haemoglobin := Some s2\<rparr>))
                (risk_total (data\<lparr>haemoglobin := Some s1\<rparr>))"
      unfolding t1 t2 using assms(8,9) by (rule typed_total_antimono_haemoglobin)
  qed
qed

theorem calculateRisk_antimono_haemoglobin_witness:
  "age patient_ex2 = Some (Fin (of_int 3)) \<and> (0::int) \<le> 3 \<and> (3::int) \<le> 120 \<and>
   count_of (parasiteCount patient_ex2) (Some 4) \<and>
   StringToNumber ''100'' = Fin 100 \<and> StringToNumber ''120'' = Fin 120 \<and>
   (20::rat) \<le> 100 \<and> (100::rat) \<le> 120 \<and> (120::rat) \<le> 150 \<and>
   js_le (calculateRisk (patient_ex2\<lparr>haemoglobin := Some ''120''\<rparr>))
         (calculateRisk (patient_ex2\<lparr>haemoglobin := Some ''100''\<rparr>))"
  using calculateRisk_antimono_haemoglobin[of patient_ex2 3 "Some 4" "''100''" 100 "''120''" 120]
  by (simp add: patient_ex2_def StringToNumber_100 StringToNumber_120 count_of_4)

text \<open>
  C8. The three worked examples: age 70, no anaemia, haemoglobin 150, no parasite count
  scores 15.0, tier Low; age 3, anaemia, haemoglobin 100, parasite count 4 scores 75.0,
  tier High; age 40, no anaemia, haemoglobin 160, parasite count 0 scores 12.0, tier Low.
\<close>

theorem worked_examples:
  "calculateRisk patient_ex1 = Fin 15 \<and>
   tier_of (getRiskInterpretation (calculateRisk patient_ex1)) = Some Low \<and>
   calculateRisk patient_ex2 = Fin 75 \<and>
   tier_of (getRiskInterpretation (calculateRisk patient_ex2)) = Some High \<and>
   calculateRisk patient_ex3 = Fin 12 \<and>
   tier_of (getRiskInterpretation (calculateRisk patient_ex3)) = Some Low"
proof -
  have e1: "calculateRisk patient_ex1 = Fin 15"
    using calculateRisk_typed[of patient_ex1 70 "''150''" 150 None]
    by (simp add: patient_ex1_def StringToNumber_150 count_of_sentinel typed_score_ex1)
  have e2: "calculateRisk patient_ex2 = Fin 75"
    using calculateRisk_typed[of patient_ex2 3 "''100''" 100 "Some 4"]
    by (simp add: patient_ex2_def StringToNumber_100 count_of_4 typed_score_ex2)
  have e3: "calculateRisk patient_ex3 = Fin 12"
    using calculateRisk_typed[of patient_ex3 40 "''160''" 160 "Some 0"]
    by (simp add: patient_ex3_def StringToNumber_160 count_of_0 typed_score_ex3)
  show ?thesis unfolding e1 e2 e3 by (simp add: getRiskInterpretation_def tier_of_def)
qed

lemma clamp_Fin_range: "clamp_0_100 x = Fin r \<Longrightarrow> 0 \<le> r \<and> r \<le> 100"
  by (cases x) (auto simp: clamp_0_100_def Math_max_def Math_min_def split: if_splits)

lemma F64_half_integer:
  assumes "0 \<le> n" and "n \<le> 1000"
  shows "F64 (of_int n + 1/2) = Fin (of_int n + 1/2)"
proof -
  have "\<bar>2 * n + 1\<bar> \<le> 9007199254740992" using assms by linarith
  then have "\<bar>2 * n + 1\<bar> \<le> 2 ^ 53" by simp
  then have d: "F64 (of_int (2 * n + 1) * 2 powi (- 1)) = Fin (of_int (2 * n + 1) * 2 powi (- 1))"
    by (rule F64_dyadic) simp_all
  have e: "(of_int (2 * n + 1) :: rat) * 2 powi (- 1) = of_int n + 1/2"
    by (simp add: field_simps)
  show ?thesis using d unfolding e .
qed

text \<open>
  C10. The last step, \<open>Math.round(risk * 10) / 10\<close>, rounds a tie upwards: when ten times
  the clamped total is exactly halfway between the integers \<open>n\<close> and \<open>n + 1\<close>, the
  product is computed without error and the result is the number for \<open>(n + 1) / 10\<close>.
\<close>

theorem calculateRisk_rounds_half_up:
  assumes "clamp_0_100 (risk_total data) = Fin r" and "r * 10 = of_int n + 1/2"
  shows "calculateRisk data = F64 (of_int (n + 1) / 10)"
proof -
  have r: "0 \<le> r \<and> r \<le> 100" using assms(1) by (rule clamp_Fin_range)
  have "- 1 < (of_int n :: rat)" using r assms(2) by linarith
  then have "(of_int (- 1) :: rat) < of_int n" by simp
  then have "- 1 < n" by (simp only: of_int_less_iff)
  then have n0: "0 \<le> n" by simp
  have "(of_int n :: rat) < of_int 1000" using r assms(2) by simp
  then have "n < 1000" by (simp only: of_int_less_iff)
  then have n1: "n \<le> 1000" by simp
  have t: "js_mul (Fin r) (Fin 10) = Fin (of_int n + 1/2)"
    using F64_half_integer[OF n0 n1] by (simp add: assms(2))
  have "calculateRisk data = js_div (Math_round (Fin (of_int n + 1/2))) (Fin 10)"
    unfolding calculateRisk_steps round_one_decimal_def assms(1) t ..
  also have "\<dots> = js_div (Fin (of_int (n + 1))) (Fin 10)" by (simp only: Math_round_half)
  also have "\<dots> = F64 (of_int (n + 1) / 10)" by simp
  finally show ?thesis .
qed

lemma sub_150_148_75: "F64 (5 / 4) = Fin (5 / 4)"
  using F64_dyadic[of 5 "- 2"] by simp

lemma mul_1_25_lit_0_2: "F64 (18014398509481985 / 72057594037927936) = Fin (1 / 4)"
  using F64_eqI[of "- 2" "18014398509481985 / 72057594037927936" 4503599627370496] by simp

lemma haemoglobin_contribution_148_75: "haemoglobin_contribution (595 / 4) = Fin (1 / 4)"
  unfolding haemoglobin_contribution_def lit_0_2 js_sub_Fin
  by (simp add: sub_150_148_75 mul_1_25_lit_0_2 Math_max_def)

lemma F64_15_25: "F64 (61 / 4) = Fin (61 / 4)"
  using F64_dyadic[of 61 "- 2"] by simp

lemma F64_152_5: "F64 (305 / 2) = Fin (305 / 2)"
  using F64_dyadic[of 305 "- 1"] by simp

lemma F64_15_3: "F64 (153 / 10) = Fin (4306567143673037 / 281474976710656)"
  using F64_eqI[of 3 "153 / 10" 8613134287346074] by simp

lemma risk_total_tie: "risk_total patient_tie = Fin (61 / 4)"
proof -
  have "risk_total patient_tie = typed_total 70 False (595 / 4) None"
    using risk_total_typed[of patient_tie 70 "''148.75''" "595 / 4" None]
    by (simp add: patient_tie_def StringToNumber_148_75 count_of_sentinel)
  also have "\<dots> = Fin (61 / 4)"
    unfolding typed_total_def haemoglobin_contribution_148_75
    by (simp add: age_contribution_def anaemia_contribution_def parasite_contribution_def
          F64_numeral F64_15_25)
  finally show ?thesis .
qed

theorem calculateRisk_rounds_half_up_witness:
  "clamp_0_100 (risk_total patient_tie) = Fin (61 / 4) \<and>
   (61 / 4 :: rat) * 10 = of_int 152 + 1/2 \<and>
   calculateRisk patient_tie = F64 (153 / 10) \<and>
   F64 (153 / 10) = Fin (4306567143673037 / 281474976710656)"
proof -
  have c: "clamp_0_100 (risk_total patient_tie) = Fin (61 / 4)"
    by (simp add: risk_total_tie clamp_Fin)
  have h: "(61 / 4 :: rat) * 10 = of_int 152 + 1/2" by simp
  show ?thesis using calculateRisk_rounds_half_up[OF c h] c by (simp add: F64_15_3)
qed

section \<open>The classifier\<close>

text \<open>
  C2. For every score value, a NaN or an infinity included, \<open>getRiskInterpretation\<close>
  returns one tier with its fixed label: Low below 20, Moderate from 20 and below 50, High
  from 50. On a score in \<open>[0, 100]\<close> exactly one of the three conditions holds.
\<close>

theorem getRiskInterpretation_tiers:
  "(js_lt score (Fin 20) \<longrightarrow>
      tier_of (getRiskInterpretation score) = Some Low \<and>
      riskText (getRiskInterpretation score) = ''Low risk - Standard monitoring recommended'') \<and>
   (js_ge score (Fin 20) \<and> js_lt score (Fin 50) \<longrightarrow>
      tier_of (getRiskInterpretation score) = Some Moderate \<and>
      riskText (getRiskInterpretation score) = ''Moderate risk - Enhanced monitoring advised'') \<and>
   (js_ge score (Fin 50) \<longrightarrow>
      tier_of (getRiskInterpretation score) = Some High \<and>
      riskText (getRiskInterpretation score) =
        ''High risk - Immediate clinical attention required'') \<and>
   (\<exists>t. tier_of (getRiskInterpretation score) = Some t) \<and>
   (score = Fin r \<and> 0 \<le> r \<and> r \<le> 100 \<longrightarrow>
      (js_lt score (Fin 20) \<and> \<not> (js_ge score (Fin 20) \<and> js_lt score (Fin 50)) \<and>
         \<not> js_ge score (Fin 50)) \<or>
      (\<not> js_lt score (Fin 20) \<and> (js_ge score (Fin 20) \<and> js_lt score (Fin 50)) \<and>
         \<not> js_ge score (Fin 50)) \<or>
      (\<not> js_lt score (Fin 20) \<and> \<not> (js_ge score (Fin 20) \<and> js_lt score (Fin 50)) \<and>
         js_ge score (Fin 50)))"
proof (cases score)
  case (Fin q)
  then show ?thesis
    by (auto simp: getRiskInterpretation_def tier_of_def js_ge_def js_le_def js_seq_def)
qed (simp_all add: getRiskInterpretation_def tier_of_def js_ge_def js_le_def js_seq_def)

theorem getRiskInterpretation_tiers_witness:
  "js_lt (Fin 15) (Fin 20) \<and>
   tier_of (getRiskInterpretation (Fin 15)) = Some Low \<and>
   riskText (getRiskInterpretation (Fin 15)) = ''Low risk - Standard monitoring recommended'' \<and>
   js_ge (Fin 20) (Fin 20) \<and> js_lt (Fin 20) (Fin 50) \<and>
   tier_of (getRiskInterpretation (Fin 20)) = Some Moderate \<and>
   riskText (getRiskInterpretation (Fin 20)) = ''Moderate risk - Enhanced monitoring advised'' \<and>
   js_ge (Fin 50) (Fin 50) \<and>
   tier_of (getRiskInterpretation (Fin 50)) = Some High \<and>
   riskText (getRiskInterpretation (Fin 50)) =
     ''High risk - Immediate clinical attention required''"
  using getRiskInterpretation_tiers[of "Fin 15" 15] getRiskInterpretation_tiers[of "Fin 20" 20]
    getRiskInterpretation_tiers[of "Fin 50" 50]
  by (simp add: js_ge_def js_le_def js_seq_def)

section \<open>Observations\<close>

text \<open>
  The rounding is the one of the language: \<open>0.1 + 0.2\<close> is not \<open>0.3\<close> but the next
  number above it.
\<close>

lemma lit_0_1: "F64 (1/10) = Fin (3602879701896397 / 36028797018963968)"
  using F64_eqI[of "- 4" "1/10" 7205759403792794] by simp

lemma add_0_1_0_2:
  "js_add (F64 (1/10)) (F64 (2/10)) = Fin (1351079888211149 / 4503599627370496) \<and>
   F64 (3/10) = Fin (5404319552844595 / 18014398509481984) \<and>
   js_lt (F64 (3/10)) (js_add (F64 (1/10)) (F64 (2/10)))"
proof -
  have t: "rne (10808639105689191 / 36028797018963968 / 2 powi (- 2 - 52)) = 5404319552844596"
    using rne_tie[of 5404319552844595] by simp
  have s: "F64 (10808639105689191 / 36028797018963968) = Fin (1351079888211149 / 4503599627370496)"
    using F64_eqI_rne[of "- 2" "10808639105689191 / 36028797018963968" 5404319552844596] t
    by simp
  have a: "js_add (F64 (1/10)) (F64 (2/10)) = Fin (1351079888211149 / 4503599627370496)"
    unfolding lit_0_1 lit_0_2 by (simp add: s)
  show ?thesis unfolding a lit_0_3 by simp
qed


text \<open>
  The validator reads the haemoglobin text with \<open>parseFloat\<close>, the scorer with the
  implicit \<open>ToNumber\<close> of the subtraction. A number followed by other text passes the
  first and is NaN for the second, and NaN is classified High.
\<close>

lemma parseFloat_100abc: "parseFloat ''100abc'' = Fin 100"
  by (simp add: parse_defs F64_numeral)

lemma StringToNumber_100abc: "StringToNumber ''100abc'' = NaN"
  by (simp add: parse_defs)

lemma trailing_text_accepted_and_scored_NaN:
  "validateForm example_host patient_trailing_text = [] \<and>
   calculateRisk patient_trailing_text = NaN \<and>
   tier_of (getRiskInterpretation (calculateRisk patient_trailing_text)) = Some High"
proof -
  have v: "validateForm example_host patient_trailing_text = []"
    by (simp add: validateForm_fields dob_errors_def anaemia_errors_def haemoglobin_errors_def
          parasite_errors_def falsy_def ToString_str_def patient_trailing_text_def
          calculateAge_example_1990 parseFloat_100abc js_gt_def)
  have t: "risk_total patient_trailing_text = NaN"
    by (simp add: risk_total_def patient_trailing_text_def ToNumber_num_def ToNumber_str_def
          StringToNumber_100abc js_sub_def Math_max_def js_gt_def js_add_NaN_right Let_def)
  have c: "calculateRisk patient_trailing_text = NaN"
    by (simp add: calculateRisk_steps t clamp_0_100_def round_one_decimal_def Math_max_def
          Math_min_def)
  show ?thesis using v c by (simp add: getRiskInterpretation_def tier_of_def)
qed

text \<open>
  Each operator rounds, so the score is not always the exact sum of the formula rounded to
  one decimal. For age 8 and haemoglobin 55.25 the exact sum is 21.35, which rounds to 21.4
  under either tie rule, and the program returns the number for 21.3.
\<close>

lemma mul_8_lit_0_3:
  "F64 (5404319552844595 / 2251799813685248) = Fin (5404319552844595 / 2251799813685248)"
  using F64_eqI[of 1 "5404319552844595 / 2251799813685248" 5404319552844595] by simp

lemma StringToNumber_55_25: "StringToNumber ''55.25'' = Fin (221 / 4)"
  using F64_dyadic[of 221 "- 2"] by (simp add: parse_defs)

lemma sub_150_55_25: "F64 (379 / 4) = Fin (379 / 4)"
  using F64_dyadic[of 379 "- 2"] by simp

lemma mul_94_75_lit_0_2:
  "F64 (1365491407018734463 / 72057594037927936) = Fin (5333950808666931 / 281474976710656)"
  using F64_eqI[of 4 "1365491407018734463 / 72057594037927936" 5333950808666931] by simp

lemma add_inexact:
  "F64 (48075926022180043 / 2251799813685248) = Fin (6009490752772505 / 281474976710656)"
  using F64_eqI[of 4 "48075926022180043 / 2251799813685248" 6009490752772505] by simp

lemma times10_inexact:
  "F64 (30047453763862525 / 140737488355328) = Fin (7511863440965631 / 35184372088832)"
  using F64_eqI[of 7 "30047453763862525 / 140737488355328" 7511863440965631] by simp

lemma F64_21_3: "F64 (213 / 10) = Fin (5995417003936973 / 281474976710656)"
  using F64_eqI[of 4 "213 / 10" 5995417003936973] by simp

lemma F64_21_4: "F64 (214 / 10) = Fin (3011782250804019 / 140737488355328)"
  using F64_eqI[of 4 "214 / 10" 6023564501608038] by simp

lemma score_is_not_the_exact_sum_rounded:
  "calculateRisk patient_inexact = F64 (213 / 10) \<and>
   (8::rat) * (3 / 10) + (150 - 221 / 4) * (2 / 10) = 427 / 20 \<and>
   F64 (of_int \<lfloor>(427 / 20 :: rat) * 10 + 1 / 2\<rfloor> / 10) = F64 (214 / 10) \<and>
   F64 (213 / 10) \<noteq> F64 (214 / 10)"
proof -
  have a: "age_contribution 8 = Fin (5404319552844595 / 2251799813685248)"
    unfolding age_contribution_def lit_0_3 by (simp add: mul_8_lit_0_3)
  have h: "haemoglobin_contribution (221 / 4) = Fin (5333950808666931 / 281474976710656)"
    unfolding haemoglobin_contribution_def lit_0_2 js_sub_Fin
    by (simp add: sub_150_55_25 mul_94_75_lit_0_2 Math_max_def)
  have t: "typed_total 8 False (221 / 4) None = Fin (6009490752772505 / 281474976710656)"
    unfolding typed_total_def a h
    by (simp add: anaemia_contribution_def parasite_contribution_def mul_8_lit_0_3 add_inexact
          F64_idem[OF add_inexact])
  have "calculateRisk patient_inexact = typed_score 8 False (221 / 4) None"
    using calculateRisk_typed[of patient_inexact 8 "''55.25''" "221 / 4" None]
    by (simp add: patient_inexact_def StringToNumber_55_25 count_of_sentinel)
  also have "\<dots> = F64 (213 / 10)"
    unfolding typed_score_def t
    by (simp add: clamp_Fin round_one_decimal_def times10_inexact floor_rat_numeral)
  finally have c: "calculateRisk patient_inexact = F64 (213 / 10)" .
  show ?thesis using c F64_21_3 F64_21_4 by (simp add: floor_rat_numeral)
qed

end
